theory Spec2Isabelle
  imports Main
begin

section \<open>JavaScript values used by the code\<close>

text \<open>
  Text is a \<^typ>\<open>string\<close> holding the UTF-8 bytes of the JavaScript string: a character is
  one 8-bit unit, and the non-ASCII literals of the source are carried as their bytes. A
  value that may be \<^verbatim>\<open>undefined\<close> is an \<^typ>\<open>'a option\<close>. \<open>truthy\<close> is the test of \<^verbatim>\<open>if (s)\<close>, \<^verbatim>\<open>!s\<close> and \<^verbatim>\<open>s || t\<close> on a
  string: only the empty string is falsy.
\<close>

definition truthy :: "string \<Rightarrow> bool" where
  "truthy s \<longleftrightarrow> s \<noteq> []"

definition truthy_opt :: "string option \<Rightarrow> bool" where
  "truthy_opt v = (case v of None \<Rightarrow> False | Some s \<Rightarrow> truthy s)"

definition startsWith :: "string \<Rightarrow> string \<Rightarrow> bool" where
  "startsWith s p \<longleftrightarrow> take (length p) s = p"

text \<open>
  \<^verbatim>\<open>String.prototype.trim\<close> removes the white space and the line terminators of
  ECMAScript from both ends: tab, line feed, vertical tab, form feed, carriage return,
  space, U+00A0, U+1680, U+2000 to U+200A, U+2028, U+2029, U+202F, U+205F, U+3000 and
  U+FEFF. \<open>white_space\<close> lists them as UTF-8 byte sequences; in UTF-8 text none of them
  ends inside another character, so the trailing ones are found from the end backwards.
\<close>

definition white_space :: "string list" where
  "white_space =
     [[CHR 0x09], [CHR 0x0A], [CHR 0x0B], [CHR 0x0C], [CHR 0x0D], [CHR 0x20],
      [CHR 0xC2, CHR 0xA0], [CHR 0xE1, CHR 0x9A, CHR 0x80],
      [CHR 0xE2, CHR 0x80, CHR 0x80], [CHR 0xE2, CHR 0x80, CHR 0x81],
      [CHR 0xE2, CHR 0x80, CHR 0x82], [CHR 0xE2, CHR 0x80, CHR 0x83],
      [CHR 0xE2, CHR 0x80, CHR 0x84], [CHR 0xE2, CHR 0x80, CHR 0x85],
      [CHR 0xE2, CHR 0x80, CHR 0x86], [CHR 0xE2, CHR 0x80, CHR 0x87],
      [CHR 0xE2, CHR 0x80, CHR 0x88], [CHR 0xE2, CHR 0x80, CHR 0x89],
      [CHR 0xE2, CHR 0x80, CHR 0x8A], [CHR 0xE2, CHR 0x80, CHR 0xA8],
      [CHR 0xE2, CHR 0x80, CHR 0xA9], [CHR 0xE2, CHR 0x80, CHR 0xAF],
      [CHR 0xE2, CHR 0x81, CHR 0x9F], [CHR 0xE3, CHR 0x80, CHR 0x80],
      [CHR 0xEF, CHR 0xBB, CHR 0xBF]]"

text \<open>Remove from the front of \<open>s\<close>, as long as there is one, a sequence of \<open>units\<close>.\<close>

function stripLeading :: "string list \<Rightarrow> string \<Rightarrow> string" where
  "stripLeading units s =
     (case List.find (\<lambda>w. w \<noteq> [] \<and> startsWith s w) units of
        None \<Rightarrow> s
      | Some w \<Rightarrow> stripLeading units (drop (length w) s))"
  by pat_completeness auto
termination
proof (relation "measure (\<lambda>(units, s). length s)")
  show "wf (measure (\<lambda>(units, s). length s))" by simp
next
  fix units :: "string list" and s w :: string
  assume "List.find (\<lambda>w. w \<noteq> [] \<and> startsWith s w) units = Some w"
  then have "w \<noteq> []" and "startsWith s w" by (auto simp: find_Some_iff)
  then have "s \<noteq> []" by (auto simp: startsWith_def)
  with \<open>w \<noteq> []\<close>
  show "((units, drop (length w) s), (units, s)) \<in> measure (\<lambda>(units, s). length s)"
    by simp
qed

definition js_trim :: "string \<Rightarrow> string" where
  "js_trim s = rev (stripLeading (map rev white_space) (rev (stripLeading white_space s)))"

text \<open>\<^verbatim>\<open>s.split('\n')\<close>: the pieces between line feeds; never the empty list.\<close>

fun split_nl :: "string \<Rightarrow> string list" where
  "split_nl [] = [[]]"
| "split_nl (c # cs) =
     (if c = CHR 0x0A then [] # split_nl cs
      else (case split_nl cs of [] \<Rightarrow> [[c]] | piece # pieces \<Rightarrow> (c # piece) # pieces))"

text \<open>What a \<^verbatim>\<open>throw\<close> carries. \<open>DOMException name message\<close>.\<close>

datatype js_error =
    Error string
  | TypeError string
  | SyntaxError string
  | DOMException string string
  | ThrownValue string

text \<open>\<^verbatim>\<open>error instanceof Error ? error.message : dflt\<close>\<close>

fun messageOf :: "js_error \<Rightarrow> string \<Rightarrow> string" where
  "messageOf (Error m) dflt = m"
| "messageOf (TypeError m) dflt = m"
| "messageOf (SyntaxError m) dflt = m"
| "messageOf (DOMException n m) dflt = m"
| "messageOf (ThrownValue v) dflt = dflt"

text \<open>
  The value \<^verbatim>\<open>JSON.parse\<close> returns. \<^verbatim>\<open>JSON.parse\<close> and \<^verbatim>\<open>JSON.stringify\<close> belong to the
  platform, not to the repository: the functions below take them as parameters
  \<open>json_parse\<close> (\<open>None\<close> when it throws) and \<open>json_stringify\<close>. A number is kept as the text
  \<^verbatim>\<open>String(n)\<close> gives for it (\<^verbatim>\<open>0\<close> for both zeros): the code only tests numbers for
  truthiness and appends them to text.
\<close>

datatype json =
    JNull
  | JBool bool
  | JNum string
  | JString string
  | JArray "json list"
  | JObject "(string \<times> json) list"

text \<open>
  \<^verbatim>\<open>v.k\<close> for the property names the source reads (\<^verbatim>\<open>choices\<close>, \<^verbatim>\<open>delta\<close>, \<^verbatim>\<open>content\<close>,
  \<^verbatim>\<open>message\<close>, \<^verbatim>\<open>text\<close>, \<^verbatim>\<open>type\<close>): reading a property of \<^verbatim>\<open>null\<close> throws, an object
  gives its last binding of the key, every other value gives \<^verbatim>\<open>undefined\<close>.
\<close>

fun js_get :: "json \<Rightarrow> string \<Rightarrow> js_error + json option" where
  "js_get JNull k = Inl (TypeError ''Cannot read properties of null'')"
| "js_get (JObject kvs) k = Inr (map_of (rev kvs) k)"
| "js_get v k = Inr None"

text \<open>\<^verbatim>\<open>v?.k\<close>: \<^verbatim>\<open>undefined\<close> when \<^verbatim>\<open>v\<close> is \<^verbatim>\<open>null\<close> or \<^verbatim>\<open>undefined\<close>.\<close>

fun js_get_opt :: "json option \<Rightarrow> string \<Rightarrow> json option" where
  "js_get_opt None k = None"
| "js_get_opt (Some JNull) k = None"
| "js_get_opt (Some (JObject kvs)) k = map_of (rev kvs) k"
| "js_get_opt (Some v) k = None"

text \<open>\<^verbatim>\<open>v?.[0]\<close>\<close>

fun js_index0_opt :: "json option \<Rightarrow> json option" where
  "js_index0_opt (Some (JArray (x # xs))) = Some x"
| "js_index0_opt (Some (JObject kvs)) = map_of (rev kvs) ''0''"
| "js_index0_opt (Some (JString (c # cs))) = Some (JString [c])"
| "js_index0_opt v = None"

fun js_truthy :: "json option \<Rightarrow> bool" where
  "js_truthy None = False"
| "js_truthy (Some JNull) = False"
| "js_truthy (Some (JBool b)) = b"
| "js_truthy (Some (JNum n)) = (n \<noteq> ''0'')"
| "js_truthy (Some (JString s)) = truthy s"
| "js_truthy (Some v) = True"

text \<open>\<^verbatim>\<open>a || b\<close>\<close>

definition js_or :: "json option \<Rightarrow> json option \<Rightarrow> json option" where
  "js_or a b = (if js_truthy a then a else b)"

section \<open>Request gateway\<close>

subsection \<open>Authentication (\<^verbatim>\<open>servers/shared/auth\<close>)\<close>

record Env =
  AI_PROVIDER :: string
  AI_BASE_URL :: string
  AI_API_KEY :: string
  AI_MODEL_ID :: string
  ACCESS_PASSWORD :: "string option"

record LLMConfig =
  provider :: "string option"
  baseUrl :: "string option"
  apiKey :: "string option"
  modelId :: "string option"

text \<open>
  The request: the \<^verbatim>\<open>x-access-password\<close> header and the JSON body
  \<^verbatim>\<open>{messages, stream, llmConfig}\<close>. \<open>req_messages\<close> is \<open>None\<close> when the field is
  missing or is not an array.
\<close>

record 'm Request =
  x_access_password :: "string option"
  req_messages :: "'m list option"
  req_stream :: bool
  req_llmConfig :: "LLMConfig option"

record AuthResult =
  valid :: bool
  exempt :: bool

definition validateAccessPassword :: "'m Request \<Rightarrow> Env \<Rightarrow> AuthResult" where
  "validateAccessPassword req env =
     (let password = x_access_password req;
          configuredPassword = ACCESS_PASSWORD env
      in if \<not> truthy_opt configuredPassword then \<lparr>valid = True, exempt = False\<rparr>
         else if truthy_opt password then
           (if password = configuredPassword then \<lparr>valid = True, exempt = True\<rparr>
            else \<lparr>valid = False, exempt = False\<rparr>)
         else \<lparr>valid = True, exempt = False\<rparr>)"

subsection \<open>The chat route (\<^verbatim>\<open>servers/routes/chat\<close>)\<close>

definition or_else :: "string option \<Rightarrow> string \<Rightarrow> string" where
  "or_else v d = (case v of None \<Rightarrow> d | Some s \<Rightarrow> if truthy s then s else d)"

definition createEffectiveEnv :: "Env \<Rightarrow> LLMConfig option \<Rightarrow> Env" where
  "createEffectiveEnv env llmConfig =
     (case llmConfig of
        None \<Rightarrow> env
      | Some c \<Rightarrow>
          if \<not> truthy_opt (apiKey c) then env
          else \<lparr>AI_PROVIDER = or_else (provider c) (AI_PROVIDER env),
                AI_BASE_URL = or_else (baseUrl c) (AI_BASE_URL env),
                AI_API_KEY = or_else (apiKey c) [],
                AI_MODEL_ID = or_else (modelId c) (AI_MODEL_ID env),
                ACCESS_PASSWORD = None\<rparr>)"

text \<open>What the handler does to the Express response object, in order.\<close>

datatype JsonBody = ErrorBody string | ContentBody string

datatype res_op =
    Status nat
  | SetHeader string string
  | Json JsonBody
  | Write string
  | End

text \<open>
  The four provider functions of \<^verbatim>\<open>servers/shared\<close>, with the upstream already bound. A
  non-streaming call returns the text or throws; a streaming call performs operations on
  the response and may throw after them.
\<close>

record 'm Providers =
  p_callOpenAI :: "'m list \<Rightarrow> Env \<Rightarrow> js_error + string"
  p_callAnthropic :: "'m list \<Rightarrow> Env \<Rightarrow> js_error + string"
  p_streamOpenAI :: "'m list \<Rightarrow> Env \<Rightarrow> res_op list \<times> js_error option"
  p_streamAnthropic :: "'m list \<Rightarrow> Env \<Rightarrow> res_op list \<times> js_error option"

definition wrong_password_text :: string where
  "wrong_password_text =
     [CHR 0xE8, CHR 0xAE, CHR 0xBF, CHR 0xE9, CHR 0x97, CHR 0xAE, CHR 0xE5, CHR 0xAF, CHR 0x86,
      CHR 0xE7, CHR 0xA0, CHR 0x81, CHR 0xE9, CHR 0x94, CHR 0x99, CHR 0xE8, CHR 0xAF, CHR 0xAF]"

definition hasCustomLLM :: "'m Request \<Rightarrow> bool" where
  "hasCustomLLM req =
     (case req_llmConfig req of None \<Rightarrow> False | Some c \<Rightarrow> truthy_opt (apiKey c))"

definition chatHandler :: "'m Providers \<Rightarrow> Env \<Rightarrow> 'm Request \<Rightarrow> res_op list" where
  "chatHandler P env req =
     (let auth = validateAccessPassword req env
      in if \<not> valid auth then [Status 401, Json (ErrorBody wrong_password_text)]
         else case req_messages req of
           None \<Rightarrow> [Status 400, Json (ErrorBody ''Invalid request: messages required'')]
         | Some messages \<Rightarrow>
            (let effectiveExempt = (exempt auth \<or> hasCustomLLM req);
                 effectiveEnv = createEffectiveEnv env (req_llmConfig req);
                 provider = (if truthy (AI_PROVIDER effectiveEnv)
                             then AI_PROVIDER effectiveEnv else ''openai'');
                 quotaHeader = SetHeader ''X-Quota-Exempt''
                                 (if effectiveExempt then ''true'' else ''false'')
             in if req_stream req then
                  (let (ops, thrown) =
                         (if provider = ''anthropic''
                          then p_streamAnthropic P messages effectiveEnv
                          else p_streamOpenAI P messages effectiveEnv)
                   in [quotaHeader,
                       SetHeader ''Content-Type'' ''text/event-stream'',
                       SetHeader ''Cache-Control'' ''no-cache'',
                       SetHeader ''Connection'' ''keep-alive'']
                      @ ops
                      @ (case thrown of
                           None \<Rightarrow> []
                         | Some e \<Rightarrow>
                             [Status 500, Json (ErrorBody (messageOf e ''Unknown error''))]))
                else
                  (case (if provider = ''anthropic''
                         then p_callAnthropic P messages effectiveEnv
                         else p_callOpenAI P messages effectiveEnv) of
                     Inl e \<Rightarrow>
                       [quotaHeader, Status 500,
                        Json (ErrorBody (messageOf e ''Unknown error''))]
                   | Inr response \<Rightarrow> [quotaHeader, Json (ContentBody response)])))"

text \<open>The value the response carries for a header: the last one set.\<close>

definition header_value :: "string \<Rightarrow> res_op list \<Rightarrow> string option" where
  "header_value name ops =
     (case filter (\<lambda>x. case x of SetHeader n v \<Rightarrow> n = name | _ \<Rightarrow> False) ops of
        [] \<Rightarrow> None
      | hs \<Rightarrow> (case last hs of SetHeader n v \<Rightarrow> Some v | _ \<Rightarrow> None))"

text \<open>Providers that answer a fixed text, for running the handler on concrete requests.\<close>

definition fixed_providers :: "'m Providers" where
  "fixed_providers =
     \<lparr>p_callOpenAI = (\<lambda>ms e. Inr ''graph TD''),
      p_callAnthropic = (\<lambda>ms e. Inr ''graph TD''),
      p_streamOpenAI = (\<lambda>ms e. ([Write ''data: [DONE]\<newline>\<newline>'', End], None)),
      p_streamAnthropic = (\<lambda>ms e. ([Write ''data: [DONE]\<newline>\<newline>'', End], None))\<rparr>"

subsection \<open>The platform\<close>

text \<open>
  \<^verbatim>\<open>JSON.parse\<close>, \<^verbatim>\<open>JSON.stringify\<close> and \<^verbatim>\<open>TextDecoder\<close> are the platform's. The decoder is a
  machine that reads one byte at a time and keeps the bytes of an incomplete character in
  its state; \<^verbatim>\<open>decoder.decode(value, {stream: true})\<close> runs it over the bytes of one chunk.
\<close>

record 'd Platform =
  json_parse :: "string \<Rightarrow> json option"
  json_stringify :: "json \<Rightarrow> string"
  decoder_step :: "'d \<Rightarrow> char \<Rightarrow> string \<times> 'd"
  decoder_init :: 'd

fun decode :: "('d \<Rightarrow> char \<Rightarrow> string \<times> 'd) \<Rightarrow> 'd \<Rightarrow> string \<Rightarrow> string \<times> 'd" where
  "decode step d [] = ([], d)"
| "decode step d (b # bs) =
     (let (out, d') = step d b;
          (rest, d'') = decode step d' bs
      in (out @ rest, d''))"

text \<open>
  One \<^verbatim>\<open>reader.read()\<close> that does not report \<^verbatim>\<open>done\<close>: a chunk of bytes, or a rejection
  (an abort, a network fault). The end of the list is \<^verbatim>\<open>done\<close>.
\<close>

datatype read_event = Chunk string | ReadThrows js_error

datatype 'r fetch_result = Rejected js_error | Resolved 'r

subsection \<open>The Anthropic relay (\<^verbatim>\<open>servers/shared/stream-anthropic\<close>)\<close>

record UpstreamResponse =
  up_ok :: bool
  up_text :: string
  up_body :: "read_event list option"

text \<open>The body of \<^verbatim>\<open>for (const line of lines)\<close>: what one upstream line makes the relay write.\<close>

definition relayLine :: "'d Platform \<Rightarrow> string \<Rightarrow> res_op list" where
  "relayLine pf line =
     (let trimmed = js_trim line
      in if \<not> truthy trimmed \<or> \<not> startsWith trimmed ''data: '' then []
         else
           (let data = drop 6 trimmed
            in if data = ''[DONE]'' then [Write ''data: [DONE]\<newline>\<newline>'']
               else
                 (case json_parse pf data of
                    None \<Rightarrow> []
                  | Some parsed \<Rightarrow>
                      (case js_get parsed ''type'' of
                         Inl e \<Rightarrow> []
                       | Inr ty \<Rightarrow>
                           if ty = Some (JString ''content_block_delta'') then
                             (case js_get parsed ''delta'' of
                                Inl e \<Rightarrow> []
                              | Inr delta \<Rightarrow>
                                  (case js_get_opt delta ''text'' of
                                     None \<Rightarrow> []
                                   | Some text \<Rightarrow>
                                       if js_truthy (Some text)
                                       then [Write (''data: ''
                                               @ json_stringify pf (JObject [(''content'', text)])
                                               @ ''\<newline>\<newline>'')]
                                       else []))
                           else []))))"

text \<open>
  The \<^verbatim>\<open>while (true)\<close> loop over the reads: the operations written, and the error when a
  read rejects.
\<close>

fun relayLoop ::
  "'d Platform \<Rightarrow> 'd \<Rightarrow> string \<Rightarrow> read_event list \<Rightarrow> res_op list \<times> js_error option" where
  "relayLoop pf d buffer [] = ([], None)"
| "relayLoop pf d buffer (ReadThrows e # rest) = ([], Some e)"
| "relayLoop pf d buffer (Chunk v # rest) =
     (let (text, d') = decode (decoder_step pf) d v;
          lines = split_nl (buffer @ text);
          written = concat (map (relayLine pf) (butlast lines));
          (later, thrown) = relayLoop pf d' (last lines) rest
      in (written @ later, thrown))"

definition streamAnthropic ::
  "'d Platform \<Rightarrow> UpstreamResponse fetch_result \<Rightarrow> 'm list \<Rightarrow> Env
     \<Rightarrow> res_op list \<times> js_error option" where
  "streamAnthropic pf fetched messages env =
     (if \<not> truthy (AI_API_KEY env) then ([], Some (Error ''AI_API_KEY not configured''))
      else case fetched of
        Rejected e \<Rightarrow> ([], Some e)
      | Resolved response \<Rightarrow>
          if \<not> up_ok response
          then ([], Some (Error (''Anthropic API error: '' @ up_text response)))
          else (case up_body response of
                  None \<Rightarrow> ([], Some (Error ''No response body''))
                | Some reads \<Rightarrow>
                    (let (written, thrown) = relayLoop pf (decoder_init pf) [] reads
                     in (written @ [End], thrown))))"

text \<open>The frames the uniform wire format names.\<close>

definition content_frame :: "'d Platform \<Rightarrow> json \<Rightarrow> res_op" where
  "content_frame pf text =
     Write (''data: '' @ json_stringify pf (JObject [(''content'', text)]) @ ''\<newline>\<newline>'')"

definition done_frame :: res_op where
  "done_frame = Write ''data: [DONE]\<newline>\<newline>''"

text \<open>
  A platform for running the code on concrete inputs: bytes decode to themselves, and
  \<open>json_parse\<close> knows the documents listed here (it agrees with \<^verbatim>\<open>JSON.parse\<close> on them and
  on every text used below that is not JSON).
\<close>

definition sample_delta :: string where
  "sample_delta = ''{\"type\":\"content_block_delta\",\"delta\":{\"text\":\"Hi\"}}''"

definition sample_parse :: "string \<Rightarrow> json option" where
  "sample_parse s =
     (if s = sample_delta
      then Some (JObject [(''type'', JString ''content_block_delta''),
                          (''delta'', JObject [(''text'', JString ''Hi'')])])
      else if s = ''{\"content\":\"X\"}'' then Some (JObject [(''content'', JString ''X'')])
      else if s = ''{}'' then Some (JObject [])
      else if s = ''null'' then Some JNull
      else None)"

definition sample_stringify :: "json \<Rightarrow> string" where
  "sample_stringify v =
     (case v of
        JObject [(k, JString s)] \<Rightarrow> ''{\"'' @ k @ ''\":\"'' @ s @ ''\"}''
      | _ \<Rightarrow> ''null'')"

definition sample_platform :: "unit Platform" where
  "sample_platform =
     \<lparr>json_parse = sample_parse,
      json_stringify = sample_stringify,
      decoder_step = (\<lambda>d b. ([b], d)),
      decoder_init = ()\<rparr>"

text \<open>
  A sample upstream body in two chunks, cut inside an event; its lines; a response with a
  given body.
\<close>

definition sample_chunks :: "string list" where
  "sample_chunks =
     [''event: content_block_delta\<newline>data: {\"type\":\"content_blo'',
      ''ck_delta\",\"delta\":{\"text\":\"Hi\"}}\<newline>\<newline>data: [DONE]\<newline>tail'']"

definition sample_lines :: "string list" where
  "sample_lines =
     [''event: content_block_delta'', ''data: '' @ sample_delta, [], ''data: [DONE]'']"

definition sample_upstream :: "string list \<Rightarrow> UpstreamResponse" where
  "sample_upstream cs = \<lparr>up_ok = True, up_text = [], up_body = Some (map Chunk cs)\<rparr>"

text \<open>
  Reading the relay's output: an upstream line is the terminator line, or a
  \<^verbatim>\<open>content_block_delta\<close> event with a truthy \<^verbatim>\<open>delta.text\<close>, or neither.
\<close>

definition is_done_line :: "string \<Rightarrow> bool" where
  "is_done_line line \<longleftrightarrow> js_trim line = ''data: [DONE]''"

definition text_delta_of :: "'d Platform \<Rightarrow> string \<Rightarrow> json option" where
  "text_delta_of pf line =
     (let trimmed = js_trim line
      in if startsWith trimmed ''data: '' then
           (case json_parse pf (drop 6 trimmed) of
              Some (JObject kvs) \<Rightarrow>
                if map_of (rev kvs) ''type'' = Some (JString ''content_block_delta'')
                then (case js_get_opt (map_of (rev kvs) ''delta'') ''text'' of
                        Some t \<Rightarrow> if js_truthy (Some t) then Some t else None
                      | None \<Rightarrow> None)
                else None
            | _ \<Rightarrow> None)
         else None)"

definition expected_frames :: "'d Platform \<Rightarrow> string \<Rightarrow> res_op list" where
  "expected_frames pf line =
     (if is_done_line line then [done_frame]
      else case text_delta_of pf line of Some t \<Rightarrow> [content_frame pf t] | None \<Rightarrow> [])"

text \<open>Sample gateway inputs.\<close>

definition env_open :: Env where
  "env_open = \<lparr>AI_PROVIDER = ''openai'', AI_BASE_URL = ''https://api.openai.com/v1'',
                AI_API_KEY = ''sk-server'', AI_MODEL_ID = ''gpt-4o-mini'',
                ACCESS_PASSWORD = None\<rparr>"

definition env_locked :: Env where
  "env_locked = env_open\<lparr>ACCESS_PASSWORD := Some ''s3cret''\<rparr>"

definition user_key :: LLMConfig where
  "user_key = \<lparr>provider = Some ''anthropic'', baseUrl = None,
                 apiKey = Some ''sk-user'', modelId = None\<rparr>"

definition sample_request :: "string option \<Rightarrow> LLMConfig option \<Rightarrow> string Request" where
  "sample_request password cfg =
     \<lparr>x_access_password = password, req_messages = Some [''draw a flowchart''],
      req_stream = False, req_llmConfig = cfg\<rparr>"

section \<open>Transport client (\<^verbatim>\<open>src/services/aiService\<close>)\<close>

subsection \<open>Values as text\<close>

text \<open>
  \<^verbatim>\<open>fullContent += content\<close> appends the text of \<open>content\<close>: a string is itself, a number is
  its text, an array joins its elements with commas (\<^verbatim>\<open>null\<close> as nothing), an
  object is \<^verbatim>\<open>[object Object]\<close>. \<open>number_text\<close> is the decimal text a template literal
  gives for a counter (the counters of the source stay far below \<^verbatim>\<open>1e21\<close>, from where on
  JavaScript prints an exponent).
\<close>

fun digit_text :: "nat \<Rightarrow> string" where
  "digit_text n =
     (if n < 10 then [char_of (48 + n)] else digit_text (n div 10) @ [char_of (48 + n mod 10)])"

definition number_text :: "int \<Rightarrow> string" where
  "number_text i = (if i < 0 then ''-'' @ digit_text (nat (- i)) else digit_text (nat i))"

fun js_to_string :: "json \<Rightarrow> string"
  and js_join :: "json list \<Rightarrow> string" where
  "js_to_string JNull = ''null''"
| "js_to_string (JBool b) = (if b then ''true'' else ''false'')"
| "js_to_string (JNum n) = n"
| "js_to_string (JString s) = s"
| "js_to_string (JArray xs) = js_join xs"
| "js_to_string (JObject kvs) = ''[object Object]''"
| "js_join [] = []"
| "js_join [x] = (if x = JNull then [] else js_to_string x)"
| "js_join (x # y # ys) = (if x = JNull then [] else js_to_string x) @ '','' @ js_join (y # ys)"

subsection \<open>The quota service and the gateway's answers\<close>

text \<open>
  \<^verbatim>\<open>quotaService\<close> is not part of the sources at hand: its state is a type \<open>'q\<close> and its
  functions are parameters.
\<close>

record 'q QuotaService =
  hasAccessPassword :: "'q \<Rightarrow> bool"
  hasLLMConfig :: "'q \<Rightarrow> bool"
  hasQuotaRemaining :: "'q \<Rightarrow> bool"
  consumeQuota :: "'q \<Rightarrow> 'q"

text \<open>
  What \<^verbatim>\<open>fetch\<close> resolves to: the status class, the \<^verbatim>\<open>X-Quota-Exempt\<close> header, the body as
  \<^verbatim>\<open>response.text()\<close> gives it (\<^verbatim>\<open>response.json()\<close> parses the same text), and the reads of
  \<^verbatim>\<open>response.body\<close> (\<open>None\<close> when there is no body to read).
\<close>

record HttpResponse =
  ok :: bool
  quotaExempt :: "string option"
  bodyText :: string
  bodyReads :: "read_event list option"

text \<open>
  The client's state: the quota service's, whether \<^verbatim>\<open>currentAbortController\<close> holds a
  controller, and the requests issued so far, each the message list and the \<^verbatim>\<open>stream\<close>
  flag of its body.
\<close>

record ('q, 'm) ClientState =
  quota :: 'q
  currentAbortController :: bool
  fetchLog :: "('m list \<times> bool) list"

definition quota_exhausted_text :: string where
  "quota_exhausted_text =
     [CHR 0xE4, CHR 0xBB, CHR 0x8A, CHR 0xE6, CHR 0x97, CHR 0xA5, CHR 0xE9, CHR 0x85,
      CHR 0x8D, CHR 0xE9, CHR 0xA2, CHR 0x9D, CHR 0xE5, CHR 0xB7, CHR 0xB2, CHR 0xE7,
      CHR 0x94, CHR 0xA8, CHR 0xE5, CHR 0xAE, CHR 0x8C, CHR 0xEF, CHR 0xBC, CHR 0x8C,
      CHR 0xE8, CHR 0xAF, CHR 0xB7, CHR 0xE6, CHR 0x98, CHR 0x8E, CHR 0xE5, CHR 0xA4,
      CHR 0xA9, CHR 0xE5, CHR 0x86, CHR 0x8D, CHR 0xE8, CHR 0xAF, CHR 0x95, CHR 0xE6,
      CHR 0x88, CHR 0x96, CHR 0xE8, CHR 0xAE, CHR 0xBE, CHR 0xE7, CHR 0xBD, CHR 0xAE,
      CHR 0xE8, CHR 0xAE, CHR 0xBF, CHR 0xE9, CHR 0x97, CHR 0xAE, CHR 0xE5, CHR 0xAF,
      CHR 0x86, CHR 0xE7, CHR 0xA0, CHR 0x81] @ ''/'' @ [CHR 0xE8, CHR 0x87, CHR 0xAA,
      CHR 0xE5, CHR 0xAE, CHR 0x9A, CHR 0xE4, CHR 0xB9, CHR 0x89] @ '' LLM '' @ [CHR 0xE9,
      CHR 0x85, CHR 0x8D, CHR 0xE7, CHR 0xBD, CHR 0xAE]"

text \<open>\<^verbatim>\<open>ensureQuotaAvailable\<close>: the error it throws, if any.\<close>

definition ensureQuotaAvailable :: "'q QuotaService \<Rightarrow> 'q \<Rightarrow> js_error option" where
  "ensureQuotaAvailable qs q =
     (if hasAccessPassword qs q \<or> hasLLMConfig qs q then None
      else if \<not> hasQuotaRemaining qs q then Some (Error quota_exhausted_text)
      else None)"

definition checkAndConsumeQuota :: "'q QuotaService \<Rightarrow> HttpResponse \<Rightarrow> 'q \<Rightarrow> 'q" where
  "checkAndConsumeQuota qs response q =
     (if quotaExempt response \<noteq> Some ''true'' then consumeQuota qs q else q)"

subsection \<open>\<^verbatim>\<open>parseSSELine\<close>\<close>

text \<open>\<open>None\<close> is the \<^verbatim>\<open>null\<close> the function returns; the \<^verbatim>\<open>catch\<close> branch is \<open>raw_data\<close>.\<close>

definition raw_data :: "string \<Rightarrow> json option" where
  "raw_data data = (if truthy (js_trim data) then Some (JString data) else None)"

definition parseSSELine :: "'d Platform \<Rightarrow> string \<Rightarrow> json option" where
  "parseSSELine pf line =
     (let data = (if startsWith line ''data: '' then drop 6 line else line)
      in if data = ''[DONE]'' then None
         else if \<not> truthy (js_trim data) then None
         else
           (case json_parse pf data of
              None \<Rightarrow> raw_data data
            | Some parsed \<Rightarrow>
                (case js_get parsed ''choices'' of
                   Inl e \<Rightarrow> raw_data data
                 | Inr choices \<Rightarrow>
                     if js_get_opt (js_get_opt (js_index0_opt choices) ''delta'') ''content''
                          \<noteq> None
                     then js_get_opt (js_get_opt (js_index0_opt choices) ''delta'') ''content''
                     else if js_get_opt (Some parsed) ''content'' \<noteq> None
                     then js_get_opt (Some parsed) ''content''
                     else if js_get_opt (Some parsed) ''text'' \<noteq> None
                     then js_get_opt (Some parsed) ''text''
                     else if js_get_opt (Some parsed) ''type''
                               = Some (JString ''content_block_delta'')
                             \<and> js_get_opt (js_get_opt (Some parsed) ''delta'') ''text'' \<noteq> None
                     then js_get_opt (js_get_opt (Some parsed) ''delta'') ''text''
                     else None)))"

subsection \<open>\<^verbatim>\<open>chat\<close>\<close>

definition chat ::
  "'q QuotaService \<Rightarrow> 'd Platform \<Rightarrow> 'm list \<Rightarrow> HttpResponse fetch_result
     \<Rightarrow> ('q, 'm) ClientState \<Rightarrow> (js_error + json) \<times> ('q, 'm) ClientState" where
  "chat qs pf messages fetched s =
     (case ensureQuotaAvailable qs (quota s) of
        Some e \<Rightarrow> (Inl e, s)
      | None \<Rightarrow>
          (let s1 = s\<lparr>fetchLog := fetchLog s @ [(messages, False)]\<rparr>
           in case fetched of
                Rejected e \<Rightarrow> (Inl e, s1)
              | Resolved response \<Rightarrow>
                  if \<not> ok response
                  then (Inl (Error (''AI request failed: '' @ bodyText response)), s1)
                  else
                    (let s2 = s1\<lparr>quota := checkAndConsumeQuota qs response (quota s1)\<rparr>
                     in case json_parse pf (bodyText response) of
                          None \<Rightarrow> (Inl (SyntaxError ''Unexpected token''), s2)
                        | Some data \<Rightarrow>
                            (case js_get data ''content'' of
                               Inl e \<Rightarrow> (Inl e, s2)
                             | Inr c \<Rightarrow>
                                 (case js_or (js_or c (js_get_opt (Some data) ''message''))
                                         (Some (JString [])) of
                                    None \<Rightarrow> (Inr (JString []), s2)
                                  | Some v \<Rightarrow> (Inr v, s2))))))"

subsection \<open>\<^verbatim>\<open>streamChat\<close>\<close>

text \<open>
  The variables of the read loop, and the calls of \<^verbatim>\<open>onChunk\<close> made so far, each with its
  two arguments.
\<close>

record 'd LoopState =
  fullContent :: string
  buffer :: string
  rawResponse :: string
  chunkCount :: nat
  decoder :: 'd
  onChunkCalls :: "(json \<times> json) list"

text \<open>\<^verbatim>\<open>if (content) { fullContent += content; onChunk(content, fullContent) }\<close>\<close>

definition deliver :: "json option \<Rightarrow> 'd LoopState \<Rightarrow> 'd LoopState" where
  "deliver content st =
     (case content of
        None \<Rightarrow> st
      | Some c \<Rightarrow>
          if js_truthy (Some c)
          then st\<lparr>fullContent := fullContent st @ js_to_string c,
                  onChunkCalls := onChunkCalls st
                     @ [(c, JString (fullContent st @ js_to_string c))]\<rparr>
          else st)"

text \<open>The body of \<^verbatim>\<open>for (const line of lines)\<close>.\<close>

definition consumeLine :: "'d Platform \<Rightarrow> 'd LoopState \<Rightarrow> string \<Rightarrow> 'd LoopState" where
  "consumeLine pf st line =
     (let trimmedLine = js_trim line
      in if \<not> truthy trimmedLine then st
         else deliver (parseSSELine pf trimmedLine) st)"

text \<open>The \<^verbatim>\<open>while (true)\<close> loop: the error of a rejected read, if any, and the state reached.\<close>

fun readLoop ::
  "'d Platform \<Rightarrow> 'd LoopState \<Rightarrow> read_event list \<Rightarrow> js_error option \<times> 'd LoopState" where
  "readLoop pf st [] = (None, st)"
| "readLoop pf st (ReadThrows e # rest) = (Some e, st)"
| "readLoop pf st (Chunk v # rest) =
     (let (chunk, d') = decode (decoder_step pf) (decoder st) v;
          lines = split_nl (buffer st @ chunk);
          st1 = st\<lparr>chunkCount := chunkCount st + 1,
                   decoder := d',
                   buffer := last lines,
                   rawResponse := rawResponse st @ chunk\<rparr>
      in readLoop pf (foldl (consumeLine pf) st1 (butlast lines)) rest)"

text \<open>\<^verbatim>\<open>if (buffer.trim()) ...\<close> after the loop.\<close>

definition flushBuffer :: "'d Platform \<Rightarrow> 'd LoopState \<Rightarrow> 'd LoopState" where
  "flushBuffer pf st =
     (if truthy (js_trim (buffer st)) then deliver (parseSSELine pf (js_trim (buffer st))) st
      else st)"

text \<open>
  The whole-body recovery: the content and the calls after it. From here on the content
  is a value, since \<^verbatim>\<open>fullContent = extractedContent\<close> may store any truthy value.
\<close>

definition recoverWholeBody ::
  "'d Platform \<Rightarrow> 'd LoopState \<Rightarrow> json \<times> (json \<times> json) list" where
  "recoverWholeBody pf st =
     (if \<not> truthy (fullContent st) \<and> truthy (js_trim (rawResponse st)) then
        (case json_parse pf (rawResponse st) of
           None \<Rightarrow> (JString (fullContent st), onChunkCalls st)
         | Some jsonResponse \<Rightarrow>
             (case js_get jsonResponse ''content'' of
                Inl e \<Rightarrow> (JString (fullContent st), onChunkCalls st)
              | Inr c \<Rightarrow>
                  (let choice = js_index0_opt (js_get_opt (Some jsonResponse) ''choices'');
                       extractedContent =
                         js_or c
                          (js_or (js_get_opt (Some jsonResponse) ''message'')
                            (js_or (js_get_opt (js_get_opt choice ''message'') ''content'')
                              (js_or (js_get_opt choice ''text'')
                                 (case jsonResponse of
                                    JString s \<Rightarrow> Some jsonResponse
                                  | _ \<Rightarrow> None))))
                   in case extractedContent of
                        None \<Rightarrow> (JString (fullContent st), onChunkCalls st)
                      | Some x \<Rightarrow>
                          if js_truthy (Some x) then (x, onChunkCalls st @ [(x, x)])
                          else (JString (fullContent st), onChunkCalls st))))
      else (JString (fullContent st), onChunkCalls st))"

text \<open>
  What a call of \<^verbatim>\<open>streamChat\<close> gives its caller: the value returned or the error
  thrown, the calls of \<^verbatim>\<open>onChunk\<close> and the calls of \<^verbatim>\<open>onComplete\<close>, in order.
\<close>

record StreamOutcome =
  returned :: "js_error + json"
  chunkCalls :: "(json \<times> json) list"
  completeCalls :: "json list"

definition streamChat ::
  "'q QuotaService \<Rightarrow> 'd Platform \<Rightarrow> 'm list \<Rightarrow> HttpResponse fetch_result
     \<Rightarrow> HttpResponse fetch_result \<Rightarrow> ('q, 'm) ClientState
     \<Rightarrow> StreamOutcome \<times> ('q, 'm) ClientState" where
  "streamChat qs pf messages fetched fallbackFetched s =
     (case ensureQuotaAvailable qs (quota s) of
        Some e \<Rightarrow> (\<lparr>returned = Inl e, chunkCalls = [], completeCalls = []\<rparr>, s)
      | None \<Rightarrow>
          (let s1 = s\<lparr>currentAbortController := True,
                       fetchLog := fetchLog s @ [(messages, True)]\<rparr>
           in case fetched of
                Rejected e \<Rightarrow> (\<lparr>returned = Inl e, chunkCalls = [], completeCalls = []\<rparr>, s1)
              | Resolved response \<Rightarrow>
                  if \<not> ok response
                  then (\<lparr>returned = Inl (Error (''AI request failed: '' @ bodyText response)),
                         chunkCalls = [], completeCalls = []\<rparr>, s1)
                  else
                    (let s2 = s1\<lparr>quota := checkAndConsumeQuota qs response (quota s1)\<rparr>
                     in case bodyReads response of
                          None \<Rightarrow>
                            (\<lparr>returned = Inl (Error ''Failed to get response reader''),
                              chunkCalls = [], completeCalls = []\<rparr>, s2)
                        | Some reads \<Rightarrow>
                            (let (thrown, st) =
                                   readLoop pf
                                     \<lparr>fullContent = [], buffer = [], rawResponse = [],
                                      chunkCount = 0, decoder = decoder_init pf,
                                      onChunkCalls = []\<rparr> reads;
                                 s3 = s2\<lparr>currentAbortController := False\<rparr>
                             in case thrown of
                                  Some e \<Rightarrow>
                                    (\<lparr>returned = Inl e, chunkCalls = onChunkCalls st,
                                      completeCalls = []\<rparr>, s3)
                                | None \<Rightarrow>
                                    (let st' = flushBuffer pf st;
                                         (content, calls) = recoverWholeBody pf st'
                                     in if \<not> js_truthy (Some content) \<and> chunkCount st' = 0 then
                                          (case chat qs pf messages fallbackFetched s3 of
                                             (Inr fallbackContent, s4) \<Rightarrow>
                                               if js_truthy (Some fallbackContent)
                                               then (\<lparr>returned = Inr fallbackContent,
                                                      chunkCalls = calls
                                                        @ [(fallbackContent, fallbackContent)],
                                                      completeCalls = [fallbackContent]\<rparr>, s4)
                                               else (\<lparr>returned = Inr content,
                                                      chunkCalls = calls,
                                                      completeCalls = [content]\<rparr>, s4)
                                           | (Inl fallbackError, s4) \<Rightarrow>
                                               (\<lparr>returned = Inr content, chunkCalls = calls,
                                                 completeCalls = [content]\<rparr>, s4))
                                        else (\<lparr>returned = Inr content, chunkCalls = calls,
                                               completeCalls = [content]\<rparr>, s3))))))"

text \<open>
  The client state when the stream has been read to its end: the streaming request is
  logged, the quota is charged unless the response exempts it, and the abort handle is
  cleared. The outcome of a call that ends with no content.
\<close>

definition after_stream ::
  "'q QuotaService \<Rightarrow> 'm list \<Rightarrow> HttpResponse \<Rightarrow> ('q, 'm) ClientState \<Rightarrow> ('q, 'm) ClientState" where
  "after_stream qs messages response s =
     s\<lparr>fetchLog := fetchLog s @ [(messages, True)],
       quota := checkAndConsumeQuota qs response (quota s),
       currentAbortController := False\<rparr>"

definition empty_outcome :: StreamOutcome where
  "empty_outcome = \<lparr>returned = Inr (JString []), chunkCalls = [], completeCalls = [JString []]\<rparr>"

text \<open>A quota service with a daily allowance, and client states, for concrete runs.\<close>

definition counting_quota :: "nat QuotaService" where
  "counting_quota =
     \<lparr>hasAccessPassword = (\<lambda>q. False), hasLLMConfig = (\<lambda>q. False),
      hasQuotaRemaining = (\<lambda>q. q < 10), consumeQuota = Suc\<rparr>"

definition fresh_client :: "(nat, string) ClientState" where
  "fresh_client = \<lparr>quota = 0, currentAbortController = False, fetchLog = []\<rparr>"

definition stream_response :: "string list \<Rightarrow> HttpResponse" where
  "stream_response cs =
     \<lparr>ok = True, quotaExempt = Some ''false'', bodyText = concat cs,
      bodyReads = Some (map Chunk cs)\<rparr>"

definition sample_frames :: "string list" where
  "sample_frames = [''data: {\"con'', ''tent\":\"X\"}\<newline>data: [DONE]\<newline>'']"

definition error_response :: "string \<Rightarrow> HttpResponse" where
  "error_response body =
     \<lparr>ok = False, quotaExempt = None, bodyText = body, bodyReads = Some [Chunk body]\<rparr>"

definition json_response :: "string \<Rightarrow> HttpResponse" where
  "json_response body =
     \<lparr>ok = True, quotaExempt = Some ''false'', bodyText = body, bodyReads = Some [Chunk body]\<rparr>"

section \<open>Generation orchestrator (\<^verbatim>\<open>useAIGenerate\<close>)\<close>

subsection \<open>Messages and attachments\<close>

datatype Role = RoleSystem | RoleUser | RoleAssistant

text \<open>
  \<^verbatim>\<open>{type: 'text', text}\<close> and \<^verbatim>\<open>{type: 'image_url', image_url: {url}}\<close>; a message's content
  is a string or a list of parts.
\<close>

datatype ContentPart = TextPart string | ImageUrlPart string

datatype MessageContent = Text string | Parts "ContentPart list"

record PayloadMessage =
  msg_role :: Role
  msg_content :: MessageContent

datatype AttachmentType = ImageAttachment | DocumentAttachment | UrlAttachment

record Attachment =
  att_type :: AttachmentType
  dataUrl :: string
  fileName :: string
  att_content :: string
  title :: string

text \<open>The body of \<^verbatim>\<open>for (const attachment of attachments)\<close>: the parts one attachment pushes.\<close>

definition attachmentParts :: "Attachment \<Rightarrow> ContentPart list" where
  "attachmentParts attachment =
     (if att_type attachment = ImageAttachment then [ImageUrlPart (dataUrl attachment)]
      else if att_type attachment = DocumentAttachment then
        [TextPart (''\<newline>\<newline>[Document: '' @ fileName attachment @ '']\<newline>''
                   @ att_content attachment)]
      else if att_type attachment = UrlAttachment then
        [TextPart (''\<newline>\<newline>[URL: '' @ title attachment @ '']\<newline>''
                   @ att_content attachment)]
      else [])"

definition buildMultimodalContent ::
  "string \<Rightarrow> Attachment list option \<Rightarrow> string option \<Rightarrow> MessageContent" where
  "buildMultimodalContent text attachments currentThumbnail =
     (let hasAttachments = (case attachments of None \<Rightarrow> False | Some as \<Rightarrow> length as > 0);
          hasThumbnail = (case currentThumbnail of
                            None \<Rightarrow> False
                          | Some t \<Rightarrow> truthy t \<and> js_trim t \<noteq> [])
      in if \<not> hasAttachments \<and> \<not> hasThumbnail then Text text
         else Parts
           ((case currentThumbnail of
               None \<Rightarrow> []
             | Some t \<Rightarrow> if hasThumbnail then [ImageUrlPart t] else [])
            @ (if truthy text then [TextPart text] else [])
            @ (case attachments of
                 None \<Rightarrow> []
               | Some as \<Rightarrow> if hasAttachments then concat (map attachmentParts as) else [])))"

text \<open>A preview that is missing or of which \<^verbatim>\<open>trim()\<close> leaves nothing.\<close>

definition blank :: "string option \<Rightarrow> bool" where
  "blank v = (case v of None \<Rightarrow> True | Some t \<Rightarrow> js_trim t = [])"

text \<open>Sample attachments.\<close>

definition sample_image :: Attachment where
  "sample_image = \<lparr>att_type = ImageAttachment, dataUrl = ''data:image/png;base64,AAAA'',
                     fileName = ''a.png'', att_content = [], title = []\<rparr>"

definition sample_document :: Attachment where
  "sample_document = \<lparr>att_type = DocumentAttachment, dataUrl = [], fileName = ''notes.txt'',
                        att_content = ''three steps'', title = []\<rparr>"

subsection \<open>Collaborators and stores\<close>

datatype EngineType = Mermaid | Excalidraw | Drawio

definition engine_name :: "EngineType \<Rightarrow> string" where
  "engine_name e = (case e of Mermaid \<Rightarrow> ''mermaid'' | Excalidraw \<Rightarrow> ''excalidraw'' | Drawio \<Rightarrow> ''drawio'')"

record Project =
  proj_id :: string
  proj_engineType :: EngineType
  proj_thumbnail :: "string option"

text \<open>The statuses the orchestrator and the chat store use: \<^verbatim>\<open>streaming\<close>, \<^verbatim>\<open>complete\<close>, \<^verbatim>\<open>error\<close>.\<close>

datatype MessageStatus = StatusStreaming | StatusComplete | StatusError

record ChatMessage =
  cm_id :: nat
  cm_role :: Role
  cm_content :: string
  cm_status :: MessageStatus
  cm_attachments :: "Attachment list option"

text \<open>The \<^verbatim>\<open>Partial<ChatMessage>\<close> that \<^verbatim>\<open>updateMessage\<close> receives: a content, a status, or both.\<close>

record MessagePatch =
  patch_content :: "string option"
  patch_status :: "MessageStatus option"

record ValidationResult =
  vr_valid :: bool
  vr_error :: "string option"

text \<open>
  The collaborators outside the sources at hand or outside the claims: the system prompt
  of an engine, \<^verbatim>\<open>extractCode\<close>, the validation port, the thumbnail renderer (which may throw),
  and the thumbnail getter the canvas registers, as the answer to the \<open>i\<close>-th poll (\<open>None\<close>
  when no getter is registered).
\<close>

record Deps =
  getSystemPrompt :: "EngineType \<Rightarrow> string"
  extractCode :: "string \<Rightarrow> EngineType \<Rightarrow> string"
  validateContent :: "string \<Rightarrow> EngineType \<Rightarrow> ValidationResult"
  generateThumbnail :: "string \<Rightarrow> EngineType \<Rightarrow> js_error + string"
  thumbnailGetter :: "nat \<Rightarrow> (js_error + string) option"

text \<open>
  One settled call of \<^verbatim>\<open>aiService.streamChat\<close> as the orchestrator sees it: the calls of
  its \<^verbatim>\<open>onChunk\<close> callback (increment and running total), then the text returned or the
  error thrown.
\<close>

record TransportOutcome =
  increments :: "(string \<times> string) list"
  ending :: "js_error + string"

text \<open>
  The state the hook works on: the chat store, the editor store, the payload store, the
  \<^verbatim>\<open>isGeneratingRef\<close> guard, the toasts shown, the versions and project updates written, the
  number of \<^verbatim>\<open>aiService.abort()\<close> calls, the next message id, the message lists handed to
  the transport so far, and the outcomes the transport will settle with, in call order.
  A call of the transport that finds no outcome left has not settled yet.
\<close>

record OrchState =
  chatMessages :: "ChatMessage list"
  isStreaming :: bool
  currentProject :: "Project option"
  currentContent :: string
  isLoading :: bool
  payloadMessages :: "PayloadMessage list"
  isGeneratingRef :: bool
  successToasts :: "string list"
  errorToasts :: "string list"
  versions :: "(string \<times> string \<times> string) list"
  projectUpdates :: "(string \<times> string option) list"
  abortCalls :: nat
  nextId :: nat
  sent :: "PayloadMessage list list"
  network :: "TransportOutcome list"

text \<open>
  How an asynchronous call stands: it returned, it threw, or it is suspended on a
  transport call that has not settled. A suspended call carries what it does when that
  call settles: from the outcome and the state of that moment, how the call stands next
  and the state it leaves. The other \<^verbatim>\<open>await\<close>s of the source (validation, thumbnails,
  repositories) are taken to settle at once.
\<close>

datatype 'a completion =
    Done 'a
  | Throws js_error
  | Pending "TransportOutcome \<Rightarrow> OrchState \<Rightarrow> 'a completion \<times> OrchState"

text \<open>
  \<^verbatim>\<open>const x = await m; f(x)\<close>: \<open>f\<close> runs on what \<open>m\<close> returns; an error passes through; a
  suspended \<open>m\<close> stays suspended, and \<open>f\<close> follows once it has run to its end.
\<close>

primrec resume ::
  "'a completion \<Rightarrow> ('a \<Rightarrow> OrchState \<Rightarrow> 'b completion \<times> OrchState) \<Rightarrow> OrchState
     \<Rightarrow> 'b completion \<times> OrchState" where
  "resume (Done x) f s = f x s"
| "resume (Throws e) f s = (Throws e, s)"
| "resume (Pending k) f s =
     (Pending (\<lambda>outcome s'. case_prod (\<lambda>rest s''. rest f s'')
                               (map_prod resume id (k outcome s'))), s)"

definition andThen ::
  "'a completion \<times> OrchState \<Rightarrow> ('a \<Rightarrow> OrchState \<Rightarrow> 'b completion \<times> OrchState)
     \<Rightarrow> 'b completion \<times> OrchState" where
  "andThen m f = (case m of (c, s) \<Rightarrow> resume c f s)"

subsection \<open>The chat store (\<^verbatim>\<open>src/stores/chatStore\<close>)\<close>

definition addMessage ::
  "Role \<Rightarrow> string \<Rightarrow> MessageStatus \<Rightarrow> Attachment list option \<Rightarrow> OrchState
     \<Rightarrow> nat \<times> OrchState" where
  "addMessage r c st atts s =
     (nextId s,
      s\<lparr>chatMessages := chatMessages s
           @ [\<lparr>cm_id = nextId s, cm_role = r, cm_content = c, cm_status = st,
               cm_attachments = atts\<rparr>],
        nextId := nextId s + 1\<rparr>)"

definition applyPatch :: "MessagePatch \<Rightarrow> ChatMessage \<Rightarrow> ChatMessage" where
  "applyPatch d msg =
     msg\<lparr>cm_content := (case patch_content d of None \<Rightarrow> cm_content msg | Some c \<Rightarrow> c),
         cm_status := (case patch_status d of None \<Rightarrow> cm_status msg | Some st \<Rightarrow> st)\<rparr>"

definition updateMessage :: "nat \<Rightarrow> MessagePatch \<Rightarrow> OrchState \<Rightarrow> OrchState" where
  "updateMessage ident d s =
     s\<lparr>chatMessages := map (\<lambda>msg. if cm_id msg = ident then applyPatch d msg else msg)
                           (chatMessages s)\<rparr>"

definition setStreaming :: "bool \<Rightarrow> OrchState \<Rightarrow> OrchState" where
  "setStreaming b s = s\<lparr>isStreaming := b\<rparr>"

definition setLoading :: "bool \<Rightarrow> OrchState \<Rightarrow> OrchState" where
  "setLoading b s = s\<lparr>isLoading := b\<rparr>"

definition setMessages :: "PayloadMessage list \<Rightarrow> OrchState \<Rightarrow> OrchState" where
  "setMessages ms s = s\<lparr>payloadMessages := ms\<rparr>"

subsection \<open>Prompts (\<^verbatim>\<open>src/lib/promptBuilder\<close>)\<close>

text \<open>The phase argument: \<^verbatim>\<open>'elements'\<close>, \<^verbatim>\<open>'links'\<close> or none.\<close>

datatype Phase = Elements | Links

definition buildInitialPrompt ::
  "string \<Rightarrow> bool \<Rightarrow> Phase option \<Rightarrow> string option \<Rightarrow> string" where
  "buildInitialPrompt userInput useTwoPhase phase elementsOutput =
     (if \<not> useTwoPhase then
        ([CHR 0xE7, CHR 0x94, CHR 0xA8, CHR 0xE6, CHR 0x88, CHR 0xB7, CHR 0xE9, CHR 0x9C,
         CHR 0x80, CHR 0xE6, CHR 0xB1, CHR 0x82, CHR 0xEF, CHR 0xBC, CHR 0x9A]) @ ''\<newline>\"\"\"\<newline>'' @ userInput
        @ ''\<newline>\"\"\"\<newline>\<newline>''
        @ ([CHR 0xE6, CHR 0xA0, CHR 0xB9, CHR 0xE6, CHR 0x8D, CHR 0xAE, CHR 0xE4, CHR 0xBB,
           CHR 0xA5, CHR 0xE4, CHR 0xB8, CHR 0x8A, CHR 0xE9, CHR 0x9C, CHR 0x80, CHR 0xE6,
           CHR 0xB1, CHR 0x82, CHR 0xEF, CHR 0xBC, CHR 0x8C, CHR 0xE7, CHR 0x94, CHR 0x9F,
           CHR 0xE6, CHR 0x88, CHR 0x90, CHR 0xE5, CHR 0xAE, CHR 0x8C, CHR 0xE6, CHR 0x95,
           CHR 0xB4, CHR 0xE7, CHR 0x9A, CHR 0x84, CHR 0xE5, CHR 0x9B, CHR 0xBE, CHR 0xE8,
           CHR 0xA1, CHR 0xA8, CHR 0xE4, CHR 0xBB, CHR 0xA3, CHR 0xE7, CHR 0xA0, CHR 0x81,
           CHR 0xE3, CHR 0x80, CHR 0x82])
      else if phase = Some Elements then
        ([CHR 0xE7, CHR 0x94, CHR 0xA8, CHR 0xE6, CHR 0x88, CHR 0xB7, CHR 0xE9, CHR 0x9C,
         CHR 0x80, CHR 0xE6, CHR 0xB1, CHR 0x82, CHR 0xEF, CHR 0xBC, CHR 0x9A]) @ ''\<newline>\"\"\"\<newline>'' @ userInput
        @ ''\<newline>\"\"\"\<newline>\<newline>''
        @ ([CHR 0xE6, CHR 0xA0, CHR 0xB9, CHR 0xE6, CHR 0x8D, CHR 0xAE, CHR 0xE4, CHR 0xBB,
           CHR 0xA5, CHR 0xE4, CHR 0xB8, CHR 0x8A, CHR 0xE9, CHR 0x9C, CHR 0x80, CHR 0xE6,
           CHR 0xB1, CHR 0x82, CHR 0xEF, CHR 0xBC, CHR 0x8C, CHR 0xE8, CHR 0xAF, CHR 0x86,
           CHR 0xE5, CHR 0x88, CHR 0xAB, CHR 0xE5, CHR 0xB9, CHR 0xB6, CHR 0xE5, CHR 0x88,
           CHR 0x97, CHR 0xE5, CHR 0x87, CHR 0xBA, CHR 0xE6, CHR 0x89, CHR 0x80, CHR 0xE6,
           CHR 0x9C, CHR 0x89, CHR 0xE5, CHR 0xBF, CHR 0x85, CHR 0xE8, CHR 0xA6, CHR 0x81,
           CHR 0xE7, CHR 0x9A, CHR 0x84, CHR 0xE5, CHR 0x9B, CHR 0xBE, CHR 0xE8, CHR 0xA1,
           CHR 0xA8, CHR 0xE8, CHR 0x8A, CHR 0x82, CHR 0xE7, CHR 0x82, CHR 0xB9, CHR 0xE5,
           CHR 0x92, CHR 0x8C, CHR 0xE7, CHR 0xBB, CHR 0x84, CHR 0xE4, CHR 0xBB, CHR 0xB6,
           CHR 0xE3, CHR 0x80, CHR 0x82]) @ ''\<newline>''
        @ ([CHR 0xE4, CHR 0xBB, CHR 0x85, CHR 0xE8, CHR 0xBE, CHR 0x93, CHR 0xE5, CHR 0x87,
           CHR 0xBA, CHR 0xE5, CHR 0x8C, CHR 0x85, CHR 0xE5, CHR 0x90, CHR 0xAB, CHR 0xE8,
           CHR 0x8A, CHR 0x82, CHR 0xE7, CHR 0x82, CHR 0xB9] @ ''/'' @ [CHR 0xE5, CHR 0xBD,
           CHR 0xA2, CHR 0xE7, CHR 0x8A, CHR 0xB6, CHR 0xE7, CHR 0x9A, CHR 0x84, CHR 0xE6,
           CHR 0x95, CHR 0xB0, CHR 0xE6, CHR 0x8D, CHR 0xAE, CHR 0xE7, CHR 0xBB, CHR 0x93,
           CHR 0xE6, CHR 0x9E, CHR 0x84, CHR 0xEF, CHR 0xBC, CHR 0x8C, CHR 0xE6, CHR 0x9A,
           CHR 0x82, CHR 0xE4, CHR 0xB8, CHR 0x8D, CHR 0xE5, CHR 0x88, CHR 0x9B, CHR 0xE5,
           CHR 0xBB, CHR 0xBA, CHR 0xE4, CHR 0xBB, CHR 0xBB, CHR 0xE4, CHR 0xBD, CHR 0x95,
           CHR 0xE8, CHR 0xBF, CHR 0x9E, CHR 0xE6, CHR 0x8E, CHR 0xA5, CHR 0xE6, CHR 0x88,
           CHR 0x96, CHR 0xE8, CHR 0xBF, CHR 0x9E, CHR 0xE7, CHR 0xBA, CHR 0xBF, CHR 0xE3,
           CHR 0x80, CHR 0x82])
      else
        ([CHR 0xE5, CHR 0x8E, CHR 0x9F, CHR 0xE5, CHR 0xA7, CHR 0x8B, CHR 0xE9, CHR 0x9C,
         CHR 0x80, CHR 0xE6, CHR 0xB1, CHR 0x82, CHR 0xEF, CHR 0xBC, CHR 0x9A]) @ ''\<newline>\"\"\"\<newline>'' @ userInput
        @ ''\<newline>\"\"\"\<newline>\<newline>''
        @ ([CHR 0xE5, CHR 0xB7, CHR 0xB2, CHR 0xE7, CHR 0x94, CHR 0x9F, CHR 0xE6, CHR 0x88,
           CHR 0x90, CHR 0xE7, CHR 0x9A, CHR 0x84, CHR 0xE5, CHR 0x85, CHR 0x83, CHR 0xE7,
           CHR 0xB4, CHR 0xA0, CHR 0xEF, CHR 0xBC, CHR 0x9A]) @ ''\<newline>\"\"\"\<newline>''
        @ (case elementsOutput of None \<Rightarrow> ''undefined'' | Some e \<Rightarrow> e)
        @ ''\<newline>\"\"\"\<newline>\<newline>''
        @ ([CHR 0xE6, CHR 0xA0, CHR 0xB9, CHR 0xE6, CHR 0x8D, CHR 0xAE, CHR 0xE8, CHR 0xBF,
           CHR 0x99, CHR 0xE4, CHR 0xBA, CHR 0x9B, CHR 0xE5, CHR 0x85, CHR 0x83, CHR 0xE7,
           CHR 0xB4, CHR 0xA0, CHR 0xEF, CHR 0xBC, CHR 0x8C, CHR 0xE5, CHR 0xBB, CHR 0xBA,
           CHR 0xE7, CHR 0xAB, CHR 0x8B, CHR 0xE5, CHR 0xAE, CHR 0x83, CHR 0xE4, CHR 0xBB,
           CHR 0xAC, CHR 0xE4, CHR 0xB9, CHR 0x8B, CHR 0xE9, CHR 0x97, CHR 0xB4, CHR 0xE7,
           CHR 0x9A, CHR 0x84, CHR 0xE9, CHR 0x80, CHR 0xBB, CHR 0xE8, CHR 0xBE, CHR 0x91,
           CHR 0xE8, CHR 0xBF, CHR 0x9E, CHR 0xE6, CHR 0x8E, CHR 0xA5, CHR 0xE3, CHR 0x80,
           CHR 0x81, CHR 0xE7, CHR 0xAE, CHR 0xAD, CHR 0xE5, CHR 0xA4, CHR 0xB4, CHR 0xE5,
           CHR 0x92, CHR 0x8C, CHR 0xE5, CHR 0xB1, CHR 0x82, CHR 0xE7, CHR 0xBA, CHR 0xA7,
           CHR 0xE5, CHR 0x85, CHR 0xB3, CHR 0xE7, CHR 0xB3, CHR 0xBB, CHR 0xE3, CHR 0x80,
           CHR 0x82]) @ ''\<newline>''
        @ ([CHR 0xE8, CHR 0xBE, CHR 0x93, CHR 0xE5, CHR 0x87, CHR 0xBA, CHR 0xE6, CHR 0x9C,
           CHR 0x80, CHR 0xE7, CHR 0xBB, CHR 0x88, CHR 0xE5, CHR 0xAE, CHR 0x8C, CHR 0xE6,
           CHR 0x95, CHR 0xB4, CHR 0xE7, CHR 0x9A, CHR 0x84, CHR 0xE5, CHR 0x9B, CHR 0xBE,
           CHR 0xE8, CHR 0xA1, CHR 0xA8, CHR 0xE4, CHR 0xBB, CHR 0xA3, CHR 0xE7, CHR 0xA0,
           CHR 0x81, CHR 0xE3, CHR 0x80, CHR 0x82]))"

definition buildEditPrompt :: "string \<Rightarrow> string \<Rightarrow> string" where
  "buildEditPrompt currentCode userInput =
     ([CHR 0xE5, CHR 0xBD, CHR 0x93, CHR 0xE5, CHR 0x89, CHR 0x8D, CHR 0xE5, CHR 0x9B,
      CHR 0xBE, CHR 0xE8, CHR 0xA1, CHR 0xA8, CHR 0xE5, CHR 0x86, CHR 0x85, CHR 0xE5,
      CHR 0xAE, CHR 0xB9, CHR 0xEF, CHR 0xBC, CHR 0x9A]) @ ''\<newline>\"\"\"\<newline>'' @ currentCode
     @ ''\<newline>\"\"\"\<newline>\<newline>''
     @ ([CHR 0xE7, CHR 0x94, CHR 0xA8, CHR 0xE6, CHR 0x88, CHR 0xB7, CHR 0xE4, CHR 0xBF,
        CHR 0xAE, CHR 0xE6, CHR 0x94, CHR 0xB9, CHR 0xE8, CHR 0xAF, CHR 0xB7, CHR 0xE6,
        CHR 0xB1, CHR 0x82, CHR 0xEF, CHR 0xBC, CHR 0x9A, CHR 0x22, CHR 0x22, CHR 0x22]) @ userInput @ ''\"\"\"\<newline>\<newline>''
     @ ([CHR 0xE6, CHR 0xA0, CHR 0xB9, CHR 0xE6, CHR 0x8D, CHR 0xAE, CHR 0xE7, CHR 0x94,
        CHR 0xA8, CHR 0xE6, CHR 0x88, CHR 0xB7, CHR 0xE4, CHR 0xBF, CHR 0xAE, CHR 0xE6,
        CHR 0x94, CHR 0xB9, CHR 0xE8, CHR 0xAF, CHR 0xB7, CHR 0xE6, CHR 0xB1, CHR 0x82,
        CHR 0xE8, CHR 0xBF, CHR 0x9B, CHR 0xE8, CHR 0xA1, CHR 0x8C, CHR 0xE4, CHR 0xBF,
        CHR 0xAE, CHR 0xE6, CHR 0x94, CHR 0xB9, CHR 0xEF, CHR 0xBC, CHR 0x8C, CHR 0xE5,
        CHR 0x90, CHR 0x8C, CHR 0xE6, CHR 0x97, CHR 0xB6, CHR 0xE5, CHR 0xB0, CHR 0xBD,
        CHR 0xE9, CHR 0x87, CHR 0x8F, CHR 0xE4, CHR 0xBF, CHR 0x9D, CHR 0xE6, CHR 0x8C,
        CHR 0x81, CHR 0xE5, CHR 0x8E, CHR 0x9F, CHR 0xE6, CHR 0x9C, CHR 0x89, CHR 0xE7,
        CHR 0xBB, CHR 0x93, CHR 0xE6, CHR 0x9E, CHR 0x84, CHR 0xE4, CHR 0xB8, CHR 0x8D,
        CHR 0xE5, CHR 0x8F, CHR 0x98, CHR 0xE3, CHR 0x80, CHR 0x82, CHR 0xE8, CHR 0xBE,
        CHR 0x93, CHR 0xE5, CHR 0x87, CHR 0xBA, CHR 0xE5, CHR 0xAE, CHR 0x8C, CHR 0xE6,
        CHR 0x95, CHR 0xB4, CHR 0xE7, CHR 0x9A, CHR 0x84, CHR 0xE4, CHR 0xBF, CHR 0xAE,
        CHR 0xE6, CHR 0x94, CHR 0xB9, CHR 0xE5, CHR 0x90, CHR 0x8E, CHR 0xE7, CHR 0x9A,
        CHR 0x84, CHR 0xE5, CHR 0x9B, CHR 0xBE, CHR 0xE8, CHR 0xA1, CHR 0xA8, CHR 0xE4,
        CHR 0xBB, CHR 0xA3, CHR 0xE7, CHR 0xA0, CHR 0x81, CHR 0xE3, CHR 0x80, CHR 0x82])"

subsection \<open>The transport, as the orchestrator calls it\<close>

text \<open>
  \<^verbatim>\<open>aiService.streamChat(messages, onChunk)\<close>: the message list is handed over; when the
  call settles, the callback has run on every increment in order, and the call returns or
  throws. With an outcome at hand in \<open>network\<close> the call settles at once; with none the
  caller is suspended until an outcome arrives.
  \<^verbatim>\<open>USE_STREAMING\<close> is the constant \<^verbatim>\<open>true\<close>, so the \<^verbatim>\<open>aiService.chat\<close> branches of the
  source are never taken.
\<close>

definition settle ::
  "(string \<Rightarrow> string \<Rightarrow> OrchState \<Rightarrow> OrchState) \<Rightarrow> TransportOutcome \<Rightarrow> OrchState
     \<Rightarrow> string completion \<times> OrchState" where
  "settle onChunk outcome s =
     (let s2 = foldl (\<lambda>st (chunk, accumulated). onChunk chunk accumulated st) s
                 (increments outcome)
      in case ending outcome of
           Inl e \<Rightarrow> (Throws e, s2)
         | Inr response \<Rightarrow> (Done response, s2))"

definition streamChatCall ::
  "PayloadMessage list \<Rightarrow> (string \<Rightarrow> string \<Rightarrow> OrchState \<Rightarrow> OrchState) \<Rightarrow> OrchState
     \<Rightarrow> string completion \<times> OrchState" where
  "streamChatCall messages onChunk s =
     (let s1 = s\<lparr>sent := sent s @ [messages]\<rparr>
      in case network s1 of
           [] \<Rightarrow> (Pending (settle onChunk), s1)
         | outcome # later \<Rightarrow> settle onChunk outcome (s1\<lparr>network := later\<rparr>))"

text \<open>The callback every strategy passes: the progress text, a blank line, the running total.\<close>

definition progressCallback :: "nat \<Rightarrow> string \<Rightarrow> string \<Rightarrow> string \<Rightarrow> OrchState \<Rightarrow> OrchState" where
  "progressCallback assistantMsgId label chunk accumulated s =
     updateMessage assistantMsgId
       \<lparr>patch_content = Some (label @ ''\<newline>\<newline>'' @ accumulated), patch_status = None\<rparr> s"

subsection \<open>The three strategies\<close>

definition systemMessage :: "string \<Rightarrow> PayloadMessage" where
  "systemMessage systemPrompt = \<lparr>msg_role = RoleSystem, msg_content = Text systemPrompt\<rparr>"

definition singlePhaseInitialGeneration ::
  "Deps \<Rightarrow> string \<Rightarrow> EngineType \<Rightarrow> string \<Rightarrow> nat \<Rightarrow> Attachment list option \<Rightarrow> OrchState
     \<Rightarrow> string completion \<times> OrchState" where
  "singlePhaseInitialGeneration D userInput engineType systemPrompt assistantMsgId attachments s =
     (let s1 = updateMessage assistantMsgId
                 \<lparr>patch_content = Some ''Generating diagram...'',
                  patch_status = Some StatusStreaming\<rparr> s;
          prompt = buildInitialPrompt userInput False None None;
          content = buildMultimodalContent prompt attachments None;
          messages = [systemMessage systemPrompt,
                      \<lparr>msg_role = RoleUser, msg_content = content\<rparr>];
          s2 = setMessages messages s1
      in andThen (streamChatCall messages
                    (progressCallback assistantMsgId ''Generating diagram...'') s2)
           (\<lambda>response s3. (Done (extractCode D response engineType), s3)))"

definition singlePhaseGeneration ::
  "Deps \<Rightarrow> string \<Rightarrow> string \<Rightarrow> EngineType \<Rightarrow> string \<Rightarrow> nat \<Rightarrow> Attachment list option
     \<Rightarrow> string option \<Rightarrow> OrchState \<Rightarrow> string completion \<times> OrchState" where
  "singlePhaseGeneration D userInput currentCode engineType systemPrompt assistantMsgId
       attachments currentThumbnail s =
     (let editPrompt = buildEditPrompt currentCode userInput;
          editContent = buildMultimodalContent editPrompt attachments currentThumbnail;
          messages = [systemMessage systemPrompt,
                      \<lparr>msg_role = RoleUser, msg_content = editContent\<rparr>];
          s1 = setMessages messages s
      in andThen (streamChatCall messages
                    (progressCallback assistantMsgId ''Modifying diagram...'') s1)
           (\<lambda>response s2. (Done (extractCode D response engineType), s2)))"

definition twoPhaseGeneration ::
  "Deps \<Rightarrow> string \<Rightarrow> EngineType \<Rightarrow> string \<Rightarrow> nat \<Rightarrow> Attachment list option \<Rightarrow> OrchState
     \<Rightarrow> string completion \<times> OrchState" where
  "twoPhaseGeneration D userInput engineType systemPrompt assistantMsgId attachments s =
     (let s1 = updateMessage assistantMsgId
                 \<lparr>patch_content = Some ''Phase 1/2: Generating elements...'',
                  patch_status = Some StatusStreaming\<rparr> s;
          phase1Prompt = buildInitialPrompt userInput True (Some Elements) None;
          phase1Content = buildMultimodalContent phase1Prompt attachments None;
          phase1Messages = [systemMessage systemPrompt,
                            \<lparr>msg_role = RoleUser, msg_content = phase1Content\<rparr>];
          s2 = setMessages phase1Messages s1
      in andThen (streamChatCall phase1Messages
                    (progressCallback assistantMsgId ''Phase 1/2: Generating elements...'') s2)
           (\<lambda>response1 s3.
              let elements = extractCode D response1 engineType;
                  s4 = updateMessage assistantMsgId
                         \<lparr>patch_content = Some ''Phase 2/2: Generating connections...'',
                          patch_status = Some StatusStreaming\<rparr> s3;
                  phase1Thumbnail = (case generateThumbnail D elements engineType of
                                       Inl err \<Rightarrow> None
                                     | Inr t \<Rightarrow> Some t);
                  phase2Prompt = buildInitialPrompt userInput True (Some Links) (Some elements);
                  phase2Content = buildMultimodalContent phase2Prompt attachments phase1Thumbnail;
                  phase2Messages = [systemMessage systemPrompt,
                                    \<lparr>msg_role = RoleUser, msg_content = phase1Content\<rparr>,
                                    \<lparr>msg_role = RoleAssistant, msg_content = Text elements\<rparr>,
                                    \<lparr>msg_role = RoleUser, msg_content = phase2Content\<rparr>];
                  s5 = setMessages phase2Messages s4
              in andThen (streamChatCall phase2Messages
                            (progressCallback assistantMsgId
                               ''Phase 2/2: Generating connections...'') s5)
                   (\<lambda>response2 s6. (Done (extractCode D response2 engineType), s6))))"

subsection \<open>The repair loops\<close>

text \<open>
  \<^verbatim>\<open>attemptMermaidAutoFix\<close> and \<^verbatim>\<open>attemptExcalidrawAutoFix\<close> are the same loop but for four
  constants: the ceiling, the format, the progress label and the first line of the
  correction prompt. \<open>autoFixLoop\<close> is that loop, from the state of its variables
  \<^verbatim>\<open>currentCode\<close>, \<^verbatim>\<open>currentError\<close> and \<^verbatim>\<open>attempts\<close>.
\<close>

record FixFormat =
  maxAttempts :: nat
  fixEngine :: EngineType
  fixLabel :: string
  fixInstruction :: string

definition attemptText :: "FixFormat \<Rightarrow> nat \<Rightarrow> string" where
  "attemptText F attempts =
     fixLabel F @ ('' ('' @ [CHR 0xE5, CHR 0xB0, CHR 0x9D, CHR 0xE8, CHR 0xAF, CHR 0x95] @ '' '') @ number_text (int attempts) @ ''/''
     @ number_text (int (maxAttempts F)) @ '')...''"

definition fixPrompt :: "FixFormat \<Rightarrow> string \<Rightarrow> string \<Rightarrow> string" where
  "fixPrompt F currentError currentCode =
     fixInstruction F @ ''\<newline>      '' @ ([CHR 0xE6, CHR 0x8A, CHR 0xA5, CHR 0xE9, CHR 0x94, CHR 0x99, CHR 0xEF, CHR 0xBC,
                                                CHR 0x9A, CHR 0x22, CHR 0x22, CHR 0x22]) @ currentError
     @ ''\"\"\"\<newline>      '' @ ([CHR 0xE5, CHR 0xBD, CHR 0x93, CHR 0xE5, CHR 0x89, CHR 0x8D, CHR 0xE4, CHR 0xBB,
                                     CHR 0xA3, CHR 0xE7, CHR 0xA0, CHR 0x81, CHR 0xEF, CHR 0xBC, CHR 0x9A, CHR 0x22,
                                     CHR 0x22, CHR 0x22]) @ currentCode @ ''\"\"\"''"

function autoFixLoop ::
  "Deps \<Rightarrow> FixFormat \<Rightarrow> string \<Rightarrow> nat \<Rightarrow> string \<Rightarrow> string \<Rightarrow> nat \<Rightarrow> OrchState
     \<Rightarrow> string completion \<times> OrchState" where
  "autoFixLoop D F systemPrompt assistantMsgId currentCode currentError attempts s =
     (if attempts < maxAttempts F then
        (let attempts' = attempts + 1;
             s1 = updateMessage assistantMsgId
                    \<lparr>patch_content = Some (attemptText F attempts' @ ''\<newline>'' @ ([CHR 0xE9, CHR 0x94, CHR 0x99, CHR 0xE8, CHR 0xAF, CHR 0xAF] @ '': '')
                                            @ currentError),
                     patch_status = Some StatusStreaming\<rparr> s;
             messages = [systemMessage systemPrompt,
                         \<lparr>msg_role = RoleUser,
                          msg_content = Text (fixPrompt F currentError currentCode)\<rparr>];
             s2 = setMessages messages s1
         in andThen (streamChatCall messages
                       (progressCallback assistantMsgId (attemptText F attempts')) s2)
              (\<lambda>response s3.
                 let fixedCode = extractCode D response (fixEngine F);
                     validation = validateContent D fixedCode (fixEngine F)
                 in if vr_valid validation then (Done fixedCode, s3)
                    else autoFixLoop D F systemPrompt assistantMsgId fixedCode
                           (or_else (vr_error validation) ''Unknown error'') attempts' s3))
      else (Done currentCode, s))"
  by pat_completeness auto
termination
  by (relation "measure (\<lambda>(D, F, systemPrompt, assistantMsgId, currentCode, currentError,
                           attempts, s). maxAttempts F - attempts)") auto

definition MAX_MERMAID_FIX_ATTEMPTS :: nat where
  "MAX_MERMAID_FIX_ATTEMPTS = 3"

definition MAX_EXCALIDRAW_FIX_ATTEMPTS :: nat where
  "MAX_EXCALIDRAW_FIX_ATTEMPTS = 2"

definition mermaidFix :: FixFormat where
  "mermaidFix =
     \<lparr>maxAttempts = MAX_MERMAID_FIX_ATTEMPTS, fixEngine = Mermaid,
      fixLabel = ([CHR 0xE4, CHR 0xBF, CHR 0xAE, CHR 0xE5, CHR 0xA4, CHR 0x8D, CHR 0xE6, CHR 0x8A,
                  CHR 0xA5, CHR 0xE9, CHR 0x94, CHR 0x99]),
      fixInstruction = ([CHR 0xE8, CHR 0xAF, CHR 0xB7, CHR 0xE4, CHR 0xBF, CHR 0xAE, CHR 0xE5, CHR 0xA4,
                        CHR 0x8D, CHR 0xE4, CHR 0xB8, CHR 0x8B, CHR 0xE9, CHR 0x9D, CHR 0xA2] @
                        '' Mermaid '' @ [CHR 0xE4, CHR 0xBB, CHR 0xA3, CHR 0xE7, CHR 0xA0, CHR 0x81,
                        CHR 0xE4, CHR 0xB8, CHR 0xAD, CHR 0xE7, CHR 0x9A, CHR 0x84, CHR 0xE9, CHR 0x94,
                        CHR 0x99, CHR 0xE8, CHR 0xAF, CHR 0xAF, CHR 0xEF, CHR 0xBC, CHR 0x8C, CHR 0xE5,
                        CHR 0x8F, CHR 0xAA, CHR 0xE8, CHR 0xBF, CHR 0x94, CHR 0xE5, CHR 0x9B, CHR 0x9E,
                        CHR 0xE4, CHR 0xBF, CHR 0xAE, CHR 0xE5, CHR 0xA4, CHR 0x8D, CHR 0xE5, CHR 0x90,
                        CHR 0x8E, CHR 0xE7, CHR 0x9A, CHR 0x84, CHR 0xE4, CHR 0xBB, CHR 0xA3, CHR 0xE7,
                        CHR 0xA0, CHR 0x81, CHR 0xE3, CHR 0x80, CHR 0x82])\<rparr>"

definition excalidrawFix :: FixFormat where
  "excalidrawFix =
     \<lparr>maxAttempts = MAX_EXCALIDRAW_FIX_ATTEMPTS, fixEngine = Excalidraw,
      fixLabel = ([CHR 0xE4, CHR 0xBF, CHR 0xAE, CHR 0xE5, CHR 0xA4, CHR 0x8D] @ '' JSON '' @ [
                  CHR 0xE6, CHR 0xA0, CHR 0xBC, CHR 0xE5, CHR 0xBC, CHR 0x8F]),
      fixInstruction = ([CHR 0xE8, CHR 0xAF, CHR 0xB7, CHR 0xE4, CHR 0xBF, CHR 0xAE, CHR 0xE5, CHR 0xA4,
                        CHR 0x8D, CHR 0xE4, CHR 0xB8, CHR 0x8B, CHR 0xE9, CHR 0x9D, CHR 0xA2] @
                        '' Excalidraw JSON '' @ [CHR 0xE4, CHR 0xB8, CHR 0xAD, CHR 0xE7, CHR 0x9A, CHR 0x84,
                        CHR 0xE9, CHR 0x94, CHR 0x99, CHR 0xE8, CHR 0xAF, CHR 0xAF, CHR 0xEF, CHR 0xBC,
                        CHR 0x8C, CHR 0xE5, CHR 0x8F, CHR 0xAA, CHR 0xE8, CHR 0xBF, CHR 0x94, CHR 0xE5,
                        CHR 0x9B, CHR 0x9E, CHR 0xE4, CHR 0xBF, CHR 0xAE, CHR 0xE5, CHR 0xA4, CHR 0x8D,
                        CHR 0xE5, CHR 0x90, CHR 0x8E, CHR 0xE7, CHR 0x9A, CHR 0x84] @ '' JSON '' @ [
                        CHR 0xE6, CHR 0x95, CHR 0xB0, CHR 0xE7, CHR 0xBB, CHR 0x84, CHR 0xEF, CHR 0xBC,
                        CHR 0x8C, CHR 0xE4, CHR 0xB8, CHR 0x8D, CHR 0xE8, CHR 0xA6, CHR 0x81, CHR 0xE4,
                        CHR 0xBB, CHR 0xBB, CHR 0xE4, CHR 0xBD, CHR 0x95, CHR 0xE5, CHR 0x85, CHR 0xB6,
                        CHR 0xE4, CHR 0xBB, CHR 0x96, CHR 0xE5, CHR 0x86, CHR 0x85, CHR 0xE5, CHR 0xAE,
                        CHR 0xB9, CHR 0xE3, CHR 0x80, CHR 0x82])\<rparr>"

definition attemptMermaidAutoFix ::
  "Deps \<Rightarrow> string \<Rightarrow> string \<Rightarrow> string \<Rightarrow> nat \<Rightarrow> OrchState \<Rightarrow> string completion \<times> OrchState" where
  "attemptMermaidAutoFix D failedCode errorMessage systemPrompt assistantMsgId s =
     autoFixLoop D mermaidFix systemPrompt assistantMsgId failedCode errorMessage 0 s"

definition attemptExcalidrawAutoFix ::
  "Deps \<Rightarrow> string \<Rightarrow> string \<Rightarrow> string \<Rightarrow> nat \<Rightarrow> OrchState \<Rightarrow> string completion \<times> OrchState" where
  "attemptExcalidrawAutoFix D failedCode errorMessage systemPrompt assistantMsgId s =
     autoFixLoop D excalidrawFix systemPrompt assistantMsgId failedCode errorMessage 0 s"

subsection \<open>\<^verbatim>\<open>generate\<close> and \<^verbatim>\<open>stopGeneration\<close>\<close>

text \<open>\<^verbatim>\<open>const useTwoPhase = false\<close>, the constant inside \<^verbatim>\<open>generate\<close>.\<close>

definition useTwoPhase :: bool where
  "useTwoPhase = False"

text \<open>\<^verbatim>\<open>getThumbnailWithRetry\<close>: poll \<open>i\<close> with \<open>k\<close> polls left.\<close>

fun getThumbnailWithRetry ::
  "(nat \<Rightarrow> (js_error + string) option) \<Rightarrow> nat \<Rightarrow> nat \<Rightarrow> js_error + string" where
  "getThumbnailWithRetry getter i 0 = Inr []"
| "getThumbnailWithRetry getter i (Suc k) =
     (case getter i of
        None \<Rightarrow> getThumbnailWithRetry getter (Suc i) k
      | Some (Inl e) \<Rightarrow> Inl e
      | Some (Inr result) \<Rightarrow>
          if truthy result then Inr result else getThumbnailWithRetry getter (Suc i) k)"

text \<open>
  The end of the \<^verbatim>\<open>try\<close> block, once the code is valid: the content is set, the assistant
  record completed, a version written, the thumbnail renewed when one is produced (a
  failure there is only logged), the project touched, the success toast shown.
\<close>

definition persistResult ::
  "Deps \<Rightarrow> Project \<Rightarrow> bool \<Rightarrow> nat \<Rightarrow> string \<Rightarrow> OrchState \<Rightarrow> OrchState" where
  "persistResult D project isInitial assistantMsgId finalCode s =
     (let s1 = s\<lparr>currentContent := finalCode\<rparr>;
          s2 = updateMessage assistantMsgId
                 \<lparr>patch_content = Some finalCode, patch_status = Some StatusComplete\<rparr> s1;
          s3 = s2\<lparr>versions := versions s2
                    @ [(proj_id project, finalCode,
                        if isInitial then ([CHR 0xE5, CHR 0x88, CHR 0x9D, CHR 0xE5, CHR 0xA7, CHR 0x8B, CHR 0xE7, CHR 0x94,
                                           CHR 0x9F, CHR 0xE6, CHR 0x88, CHR 0x90]) else (''AI '' @ [CHR 0xE4, CHR 0xBF, CHR 0xAE, CHR 0xE6, CHR 0x94, CHR 0xB9]))]\<rparr>;
          rendered = (if proj_engineType project = Drawio
                      then getThumbnailWithRetry (thumbnailGetter D) 0 3
                      else generateThumbnail D finalCode (proj_engineType project));
          s4 = (case rendered of
                  Inl err \<Rightarrow> s3
                | Inr thumbnail \<Rightarrow>
                    if truthy thumbnail
                    then s3\<lparr>projectUpdates := projectUpdates s3
                               @ [(proj_id project, Some thumbnail)],
                            currentProject := Some (project\<lparr>proj_thumbnail := Some thumbnail\<rparr>)\<rparr>
                    else s3);
          s5 = s4\<lparr>projectUpdates := projectUpdates s4 @ [(proj_id project, None)]\<rparr>
      in s5\<lparr>successToasts := successToasts s5 @ [''Diagram generated successfully'']\<rparr>)"

text \<open>One repair stage of the \<^verbatim>\<open>try\<close> block: the loop runs when the code is invalid and the
  project's engine is the stage's; the result is validated again.\<close>

definition repairStage ::
  "Deps \<Rightarrow> FixFormat \<Rightarrow> EngineType \<Rightarrow> string \<Rightarrow> nat \<Rightarrow> string \<times> ValidationResult \<Rightarrow> OrchState
     \<Rightarrow> (string \<times> ValidationResult) completion \<times> OrchState" where
  "repairStage D F engineType systemPrompt assistantMsgId cv s =
     (case cv of
        (validatedCode, validation) \<Rightarrow>
          if \<not> vr_valid validation \<and> engineType = fixEngine F then
            andThen (autoFixLoop D F systemPrompt assistantMsgId validatedCode
                       (or_else (vr_error validation) ''Unknown error'') 0 s)
              (\<lambda>fixed s'. (Done (fixed, validateContent D fixed engineType), s'))
          else (Done (validatedCode, validation), s))"

text \<open>The \<^verbatim>\<open>try\<close> block.\<close>

definition generateTry ::
  "Deps \<Rightarrow> string \<Rightarrow> bool \<Rightarrow> Attachment list option \<Rightarrow> Project \<Rightarrow> string \<Rightarrow> nat \<Rightarrow> OrchState
     \<Rightarrow> unit completion \<times> OrchState" where
  "generateTry D userInput isInitial attachments project currentCode assistantMsgId s =
     (let engineType = proj_engineType project;
          systemPrompt = getSystemPrompt D engineType
      in andThen
           (if isInitial then
              (if useTwoPhase
               then twoPhaseGeneration D userInput engineType systemPrompt assistantMsgId
                      attachments s
               else singlePhaseInitialGeneration D userInput engineType systemPrompt
                      assistantMsgId attachments s)
            else singlePhaseGeneration D userInput currentCode engineType systemPrompt
                   assistantMsgId attachments (proj_thumbnail project) s)
           (\<lambda>finalCode s1.
              andThen (repairStage D mermaidFix engineType systemPrompt assistantMsgId
                         (finalCode, validateContent D finalCode engineType) s1)
                (\<lambda>cv s2.
                   andThen (repairStage D excalidrawFix engineType systemPrompt
                              assistantMsgId cv s2)
                     (\<lambda>cv' s3.
                        case cv' of
                          (validatedCode, validation) \<Rightarrow>
                            if \<not> vr_valid validation
                            then (Throws (Error (''Invalid '' @ engine_name engineType
                                     @ '' output: ''
                                     @ (case vr_error validation of
                                          None \<Rightarrow> ''undefined''
                                        | Some e \<Rightarrow> e))), s3)
                            else (Done (),
                                  persistResult D project isInitial assistantMsgId
                                    validatedCode s3)))))"

definition stopped_text :: string where
  "stopped_text = ([CHR 0xE5, CHR 0xB7, CHR 0xB2, CHR 0xE5, CHR 0x81, CHR 0x9C, CHR 0xE6, CHR 0xAD,
                   CHR 0xA2, CHR 0xE7, CHR 0x94, CHR 0x9F, CHR 0xE6, CHR 0x88, CHR 0x90])"

text \<open>The \<^verbatim>\<open>catch\<close> block.\<close>

definition generateCatch :: "nat \<Rightarrow> js_error \<Rightarrow> OrchState \<Rightarrow> OrchState" where
  "generateCatch assistantMsgId err s =
     (let isAborted = (case err of DOMException n m \<Rightarrow> n = ''AbortError'' | _ \<Rightarrow> False)
      in if isAborted
         then updateMessage assistantMsgId
                \<lparr>patch_content = Some stopped_text, patch_status = Some StatusError\<rparr> s
         else
           (let s1 = updateMessage assistantMsgId
                       \<lparr>patch_content = Some (''Error: '' @ messageOf err ''Generation failed''),
                        patch_status = Some StatusError\<rparr> s
            in s1\<lparr>errorToasts := errorToasts s1 @ [messageOf err ''Generation failed'']\<rparr>))"

text \<open>The \<^verbatim>\<open>finally\<close> block.\<close>

definition generateFinally :: "OrchState \<Rightarrow> OrchState" where
  "generateFinally s = (setLoading False (setStreaming False s))\<lparr>isGeneratingRef := False\<rparr>"

text \<open>
  The statements between the guard and the \<^verbatim>\<open>try\<close> block: the guard is set, the user record
  and the assistant placeholder are added, the streaming and loading flags are raised.
  The result is the placeholder's id and the state.
\<close>

definition generateEnter :: "string \<Rightarrow> Attachment list option \<Rightarrow> OrchState \<Rightarrow> nat \<times> OrchState" where
  "generateEnter userInput attachments s =
     (let s1 = s\<lparr>isGeneratingRef := True\<rparr>;
          (userMsgId, s2) = addMessage RoleUser userInput StatusComplete attachments s1;
          (assistantMsgId, s3) = addMessage RoleAssistant [] StatusStreaming None s2
      in (assistantMsgId, setLoading True (setStreaming True s3)))"

text \<open>
  \<^verbatim>\<open>try { ... } catch (error) { ... } finally { ... }\<close> around the call \<open>c\<close>: when \<open>c\<close> has
  returned the \<^verbatim>\<open>finally\<close> block runs, when it has thrown the \<^verbatim>\<open>catch\<close> block and then the
  \<^verbatim>\<open>finally\<close> block run, and while it is suspended nothing runs: the blocks wait for the
  end of \<open>c\<close>, and run on the state of that moment.
\<close>

primrec unwind :: "nat \<Rightarrow> unit completion \<Rightarrow> OrchState \<Rightarrow> unit completion \<times> OrchState" where
  "unwind assistantMsgId (Done u) s = (Done (), generateFinally s)"
| "unwind assistantMsgId (Throws err) s =
     (Done (), generateFinally (generateCatch assistantMsgId err s))"
| "unwind assistantMsgId (Pending k) s =
     (Pending (\<lambda>outcome s'. case_prod (\<lambda>rest s''. rest s'')
                               (map_prod (unwind assistantMsgId) id (k outcome s'))), s)"

definition tryCatchFinally ::
  "nat \<Rightarrow> unit completion \<times> OrchState \<Rightarrow> unit completion \<times> OrchState" where
  "tryCatchFinally assistantMsgId m = (case m of (c, s) \<Rightarrow> unwind assistantMsgId c s)"

text \<open>
  \<^verbatim>\<open>generate\<close>, for a \<^verbatim>\<open>getSystemPrompt\<close> that returns (the collaborators take that for
  granted; \<open>invoke\<close> below has the other case).
\<close>

definition generate ::
  "Deps \<Rightarrow> string \<Rightarrow> bool \<Rightarrow> Attachment list option \<Rightarrow> OrchState
     \<Rightarrow> unit completion \<times> OrchState" where
  "generate D userInput isInitial attachments s =
     (case currentProject s of
        None \<Rightarrow> (Done (), s)
      | Some project \<Rightarrow>
          if isGeneratingRef s then (Done (), s)
          else
            (case generateEnter userInput attachments s of
               (assistantMsgId, s4) \<Rightarrow>
                 tryCatchFinally assistantMsgId
                   (generateTry D userInput isInitial attachments project (currentContent s)
                      assistantMsgId s4)))"

definition stopGeneration :: "OrchState \<Rightarrow> OrchState" where
  "stopGeneration s =
     (setLoading False (setStreaming False (s\<lparr>abortCalls := abortCalls s + 1\<rparr>)))
       \<lparr>isGeneratingRef := False\<rparr>"

subsection \<open>The hook over time\<close>

text \<open>
  \<^verbatim>\<open>getSystemPrompt\<close> (\<^verbatim>\<open>promptBuilder\<close>, \<^verbatim>\<open>promptService\<close>) reads the custom prompts from local
  storage and calls \<^verbatim>\<open>trim()\<close> on the entry of the engine; it throws when the stored text
  parses to \<^verbatim>\<open>null\<close> or the entry is truthy and not a string. In \<^verbatim>\<open>generate\<close> the call stands
  after the guard is set and before the \<^verbatim>\<open>try\<close> block: a call that passes the guard and
  finds such a fault has set the guard and throws, with nothing else done. \<open>invoke\<close> is
  \<^verbatim>\<open>generate\<close> with the fault, if there is one.
\<close>

definition invoke ::
  "Deps \<Rightarrow> js_error option \<Rightarrow> string \<Rightarrow> bool \<Rightarrow> Attachment list option \<Rightarrow> OrchState
     \<Rightarrow> unit completion \<times> OrchState" where
  "invoke D promptFault userInput isInitial attachments s =
     (case promptFault of
        None \<Rightarrow> generate D userInput isInitial attachments s
      | Some err \<Rightarrow>
          (case currentProject s of
             None \<Rightarrow> (Done (), s)
           | Some project \<Rightarrow>
               if isGeneratingRef s then (Done (), s)
               else (Throws err, s\<lparr>isGeneratingRef := True\<rparr>)))"

text \<open>
  What happens to one instance of the hook: \<^verbatim>\<open>generate\<close> is called, the transport call on
  which the \<open>n\<close>-th call in flight is suspended settles, or \<^verbatim>\<open>stopGeneration\<close> is called. A
  call of \<^verbatim>\<open>generate\<close> runs until it is suspended or over; a suspended call is in flight
  until it is over, and goes on, when its transport call settles, on the state of that
  moment. The calls in flight are kept in the order of their admission. (The rejection
  that \<^verbatim>\<open>aiService.abort()\<close> causes is a settlement like any other, at its own time.)
\<close>

datatype Event =
    Invoke "js_error option" string bool "Attachment list option"
  | Settle nat TransportOutcome
  | Stop

type_synonym Flight = "TransportOutcome \<Rightarrow> OrchState \<Rightarrow> unit completion \<times> OrchState"

definition hookAfter :: "unit completion \<times> OrchState \<Rightarrow> Flight list \<Rightarrow> Flight list
     \<Rightarrow> OrchState \<times> Flight list" where
  "hookAfter m before after =
     (case m of
        (Pending k, s) \<Rightarrow> (s, before @ [k] @ after)
      | (Done u, s) \<Rightarrow> (s, before @ after)
      | (Throws e, s) \<Rightarrow> (s, before @ after))"

definition hookStep :: "Deps \<Rightarrow> OrchState \<times> Flight list \<Rightarrow> Event \<Rightarrow> OrchState \<times> Flight list" where
  "hookStep D sys ev =
     (case sys of
        (s, flights) \<Rightarrow>
          (case ev of
             Invoke promptFault userInput isInitial attachments \<Rightarrow>
               hookAfter (invoke D promptFault userInput isInitial attachments s) flights []
           | Settle n outcome \<Rightarrow>
               if n < length flights
               then hookAfter ((flights ! n) outcome s) (take n flights) (drop (Suc n) flights)
               else (s, flights)
           | Stop \<Rightarrow> (stopGeneration s, flights)))"

definition hookRun :: "Deps \<Rightarrow> Event list \<Rightarrow> OrchState \<times> Flight list \<Rightarrow> OrchState \<times> Flight list" where
  "hookRun D events sys = foldl (hookStep D) sys events"

definition faulty :: "Event \<Rightarrow> bool" where
  "faulty ev = (case ev of Invoke (Some err) u i a \<Rightarrow> True | _ \<Rightarrow> False)"

text \<open>
  What the steps of a generation leave alone: the guard, the error toasts and the ids of
  the chat records stay as they are, and the transport log is only extended.
\<close>

definition frame :: "OrchState \<Rightarrow> OrchState \<Rightarrow> bool" where
  "frame s s' \<longleftrightarrow>
     isGeneratingRef s' = isGeneratingRef s
     \<and> errorToasts s' = errorToasts s
     \<and> map cm_id (chatMessages s') = map cm_id (chatMessages s)
     \<and> (\<exists>more. sent s' = sent s @ more)"

text \<open>A call that leaves these alone at every step it takes once resumed.\<close>

inductive framed :: "'a completion \<Rightarrow> bool" where
  "framed (Done x)"
| "framed (Throws e)"
| "(\<And>outcome s. frame s (snd (k outcome s)) \<and> framed (fst (k outcome s)))
     \<Longrightarrow> framed (Pending k)"

text \<open>
  A call of \<^verbatim>\<open>generate\<close> and its state, in order: over with the guard cleared, or suspended
  with the guard set and in order again whenever it is resumed with the guard set.
\<close>

inductive orderly :: "unit completion \<times> OrchState \<Rightarrow> bool" where
  "\<not> isGeneratingRef s \<Longrightarrow> orderly (Done u, s)"
| "isGeneratingRef s \<Longrightarrow> (\<And>outcome s'. isGeneratingRef s' \<Longrightarrow> orderly (k outcome s'))
     \<Longrightarrow> orderly (Pending k, s)"

text \<open>
  The hook in order: no call in flight, or one, with the guard set and in order whenever
  it is resumed with the guard set.
\<close>

definition inOrder :: "OrchState \<times> Flight list \<Rightarrow> bool" where
  "inOrder sys \<longleftrightarrow>
     (case sys of
        (s, flights) \<Rightarrow>
          flights = []
          \<or> (\<exists>k. flights = [k] \<and> isGeneratingRef s
                   \<and> (\<forall>outcome s'. isGeneratingRef s' \<longrightarrow> orderly (k outcome s'))))"

text \<open>
  Sample collaborators, projects, states and transport outcomes. The sample validator
  accepts a text that starts with \<^verbatim>\<open>graph\<close>.
\<close>

definition sample_deps :: Deps where
  "sample_deps =
     \<lparr>getSystemPrompt = (\<lambda>e. ''You draw diagrams.''),
      extractCode = (\<lambda>response e. js_trim response),
      validateContent =
        (\<lambda>code e. if startsWith code ''graph''
                   then \<lparr>vr_valid = True, vr_error = None\<rparr>
                   else \<lparr>vr_valid = False, vr_error = Some ''Parse error''\<rparr>),
      generateThumbnail = (\<lambda>code e. Inr ''data:image/png;base64,CCCC''),
      thumbnailGetter = (\<lambda>i. None)\<rparr>"

definition sample_project :: "EngineType \<Rightarrow> Project" where
  "sample_project e = \<lparr>proj_id = ''p1'', proj_engineType = e, proj_thumbnail = None\<rparr>"

definition idle_state :: "EngineType \<Rightarrow> TransportOutcome list \<Rightarrow> OrchState" where
  "idle_state e outcomes =
     \<lparr>chatMessages = [], isStreaming = False, currentProject = Some (sample_project e),
      currentContent = [], isLoading = False, payloadMessages = [], isGeneratingRef = False,
      successToasts = [], errorToasts = [], versions = [], projectUpdates = [],
      abortCalls = 0, nextId = 0, sent = [], network = outcomes\<rparr>"

definition answers :: "string \<Rightarrow> TransportOutcome" where
  "answers response = \<lparr>increments = [(response, response)], ending = Inr response\<rparr>"

definition aborted_after :: "string \<Rightarrow> TransportOutcome" where
  "aborted_after partial =
     \<lparr>increments = [(partial, partial)],
      ending = Inl (DOMException ''AbortError'' ''The user aborted a request.'')\<rparr>"

section \<open>Basic facts\<close>

declare stripLeading.simps [simp del]

lemma stripLeading_Nil [simp]: "stripLeading units [] = []"
proof -
  have "List.find (\<lambda>w. w \<noteq> [] \<and> startsWith [] w) units = None"
    by (auto simp: find_None_iff startsWith_def)
  then show ?thesis by (subst stripLeading.simps) simp
qed

lemma js_trim_Nil [simp]: "js_trim [] = []"
  by (simp add: js_trim_def)

lemma stripLeading_Cons:
  "stripLeading units (c # cs) =
     (case List.find (\<lambda>w. w \<noteq> [] \<and> startsWith (c # cs) w) units of
        None \<Rightarrow> c # cs
      | Some w \<Rightarrow> stripLeading units (drop (length w) (c # cs)))"
  by (rule stripLeading.simps)

lemmas js_trim_eval = js_trim_def stripLeading_Cons white_space_def startsWith_def

text \<open>White space outside ASCII is trimmed as well.\<close>

lemma js_trim_unicode:
  "js_trim ([CHR 0xC2, CHR 0xA0] @ ''  a b '' @ [CHR 0xE3, CHR 0x80, CHR 0x80, CHR 0xEF, CHR 0xBB, CHR 0xBF])
     = ''a b''"
  by (simp add: js_trim_eval)

section \<open>Properties of the gateway\<close>

lemma vap_cases:
  "\<not> truthy_opt (ACCESS_PASSWORD env) \<Longrightarrow>
     validateAccessPassword req env = \<lparr>valid = True, exempt = False\<rparr>"
  "truthy_opt (ACCESS_PASSWORD env) \<Longrightarrow> x_access_password req = ACCESS_PASSWORD env \<Longrightarrow>
     validateAccessPassword req env = \<lparr>valid = True, exempt = True\<rparr>"
  "truthy_opt (ACCESS_PASSWORD env) \<Longrightarrow> truthy_opt (x_access_password req) \<Longrightarrow>
     x_access_password req \<noteq> ACCESS_PASSWORD env \<Longrightarrow>
     validateAccessPassword req env = \<lparr>valid = False, exempt = False\<rparr>"
  "truthy_opt (ACCESS_PASSWORD env) \<Longrightarrow> \<not> truthy_opt (x_access_password req) \<Longrightarrow>
     validateAccessPassword req env = \<lparr>valid = True, exempt = False\<rparr>"
  by (simp_all add: validateAccessPassword_def Let_def)

lemma chatHandler_rejects:
  "\<not> valid (validateAccessPassword req env) \<Longrightarrow>
     chatHandler P env req = [Status 401, Json (ErrorBody wrong_password_text)]"
  by (simp add: chatHandler_def Let_def)

lemma chatHandler_first_header:
  assumes "valid (validateAccessPassword req env)" and "req_messages req = Some ms"
  shows "\<exists>rest. chatHandler P env req =
           SetHeader ''X-Quota-Exempt''
             (if exempt (validateAccessPassword req env) \<or> hasCustomLLM req
              then ''true'' else ''false'') # rest"
  using assms
  by (simp add: chatHandler_def Let_def split: prod.splits sum.splits)




subsection \<open>The Anthropic relay\<close>

lemma split_nl_nonempty [simp]: "split_nl s \<noteq> []"
  by (induction s) (auto split: list.splits)

lemma split_nl_append:
  "split_nl (a @ b) = butlast (split_nl a) @ split_nl (last (split_nl a) @ b)"
proof (induction a)
  case Nil
  then show ?case by simp
next
  case (Cons c a)
  obtain p ps where sp: "split_nl a = p # ps"
    using split_nl_nonempty by (cases "split_nl a") auto
  show ?case
  proof (cases "c = CHR 0x0A")
    case True
    then show ?thesis using Cons by simp
  next
    case False
    then show ?thesis using Cons.IH sp
      by (cases ps) (auto split: list.splits)
  qed
qed

lemma decode_append:
  "decode step d (a @ b) =
     (fst (decode step d a) @ fst (decode step (snd (decode step d a)) b),
      snd (decode step (snd (decode step d a)) b))"
  by (induction a arbitrary: d) (auto simp: Let_def split: prod.splits)

lemma split_nl_no_nl: "CHR 0x0A \<notin> set s \<Longrightarrow> split_nl s = [s]"
  by (induction s) auto

lemma split_nl_pieces: "l \<in> set (split_nl s) \<Longrightarrow> CHR 0x0A \<notin> set l"
proof (induction s arbitrary: l)
  case Nil
  then show ?case by simp
next
  case (Cons c s)
  obtain p ps where sp: "split_nl s = p # ps"
    using split_nl_nonempty by (cases "split_nl s") auto
  with Cons show ?case by (auto split: if_splits)
qed

lemma last_split_nl_no_nl: "CHR 0x0A \<notin> set (last (split_nl s))"
  using split_nl_pieces [of "last (split_nl s)" s] by simp

lemma relayLoop_chunks:
  "CHR 0x0A \<notin> set buf \<Longrightarrow> relayLoop pf d buf (map Chunk cs) =
     (concat (map (relayLine pf)
        (butlast (split_nl (buf @ fst (decode (decoder_step pf) d (concat cs)))))), None)"
proof (induction cs arbitrary: d buf)
  case Nil
  then show ?case by (simp add: split_nl_no_nl)
next
  case (Cons c cs)
  obtain t d' where dc: "decode (decoder_step pf) d c = (t, d')" by (cases "decode (decoder_step pf) d c")
  have "split_nl (buf @ t @ fst (decode (decoder_step pf) d' (concat cs)))
        = butlast (split_nl (buf @ t))
          @ split_nl (last (split_nl (buf @ t)) @ fst (decode (decoder_step pf) d' (concat cs)))"
    using split_nl_append [of "buf @ t"] by simp
  then show ?case
    using Cons.IH [of "last (split_nl (buf @ t))" d'] dc last_split_nl_no_nl [of "buf @ t"]
    by (simp add: Let_def decode_append butlast_append)
qed

lemma split_nl_lines:
  "\<forall>l \<in> set ls. CHR 0x0A \<notin> set l \<Longrightarrow> CHR 0x0A \<notin> set r \<Longrightarrow>
   split_nl (concat (map (\<lambda>l. l @ [CHR 0x0A]) ls) @ r) = ls @ [r]"
proof (induction ls)
  case Nil
  then show ?case by (induction r) auto
next
  case (Cons l ls)
  have "\<And>rest. CHR 0x0A \<notin> set l \<Longrightarrow> split_nl (l @ CHR 0x0A # rest) = l # split_nl rest"
    by (induction l) auto
  then show ?case using Cons by simp
qed

lemma data_done:
  assumes "startsWith t ''data: ''" and "drop 6 t = ''[DONE]''"
  shows "t = ''data: [DONE]''"
proof -
  have "length ''data: '' = 6" by simp
  then have "take 6 t = ''data: ''" using assms(1) unfolding startsWith_def by metis
  then have "''data: '' @ ''[DONE]'' = t" using assms(2) append_take_drop_id [of 6 t] by metis
  then show ?thesis by simp
qed

lemma relayLine_expected: "relayLine pf = expected_frames pf"
proof (rule ext, goal_cases)
  case (1 line)
  show ?case
  proof (cases "startsWith (js_trim line) ''data: ''")
  case False
  then have "js_trim line \<noteq> ''data: [DONE]''" by (auto simp: startsWith_def)
  with False show ?thesis
    by (simp add: relayLine_def expected_frames_def is_done_line_def text_delta_of_def Let_def)
next
  case sw: True
  then have ne: "truthy (js_trim line)" by (auto simp: startsWith_def truthy_def)
  show ?thesis
  proof (cases "drop 6 (js_trim line) = ''[DONE]''")
    case True
    with sw have "js_trim line = ''data: [DONE]''" by (rule data_done)
    then show ?thesis
      by (simp add: relayLine_def expected_frames_def is_done_line_def Let_def done_frame_def
            startsWith_def truthy_def)
  next
    case False
    then have "js_trim line \<noteq> ''data: [DONE]''" by auto
    with sw ne False show ?thesis
      by (auto simp: relayLine_def expected_frames_def is_done_line_def text_delta_of_def Let_def
            content_frame_def split: option.splits json.splits)
  qed
qed
qed

text \<open>
  C8 (as amended). When the provider answers 2xx with a body, and the decoded body is the
  lines \<open>ls\<close>, each ended by a line feed, followed by an unterminated \<open>rest\<close>, the relay
  writes, in upstream order and however the body is cut into chunks, exactly one frame
  \<^verbatim>\<open>data: {"content": ...}\<close> for each line that is a \<^verbatim>\<open>content_block_delta\<close> event with a
  truthy text, one terminator frame for each upstream line that is \<^verbatim>\<open>data: [DONE]\<close> once
  trimmed, nothing for any other line and nothing for \<open>rest\<close>, and then closes the
  response. It adds no terminator of its own. A line is read after \<^verbatim>\<open>trim()\<close>, which removes
  the white space of JavaScript, inside ASCII and outside.
\<close>

theorem anthropic_relay_frames:
  assumes key: "truthy (AI_API_KEY env)"
    and ok: "up_ok r"
    and reads: "up_body r = Some (map Chunk cs)"
    and decoded: "fst (decode (decoder_step pf) (decoder_init pf) (concat cs))
               = concat (map (\<lambda>l. l @ [CHR 0x0A]) ls) @ rest"
    and lines: "\<forall>l \<in> set ls. CHR 0x0A \<notin> set l"
    and rest: "CHR 0x0A \<notin> set rest"
  shows "streamAnthropic pf (Resolved r) messages env
         = (concat (map (expected_frames pf) ls) @ [End], None)"
proof -
  have "relayLoop pf (decoder_init pf) [] (map Chunk cs)
        = (concat (map (relayLine pf) ls), None)"
    using relayLoop_chunks [of "[]" pf "decoder_init pf" cs] decoded split_nl_lines [OF lines rest]
    by simp
  then show ?thesis
    using key ok reads by (simp add: streamAnthropic_def relayLine_expected)
qed

lemma decode_sample: "decode (\<lambda>d b. ([b], d)) () s = (s, ())"
  by (induction s) auto

theorem anthropic_relay_frames_witness:
  "streamAnthropic sample_platform (Resolved (sample_upstream sample_chunks)) ([] :: PayloadMessage list) env_open
   = ([content_frame sample_platform (JString ''Hi''), done_frame, End], None)
   \<and> streamAnthropic sample_platform
        (Resolved (sample_upstream
           [[CHR 0xC2, CHR 0xA0] @ ''data: [DONE]'' @ [CHR 0xE3, CHR 0x80, CHR 0x80, CHR 0x0A]]))
        ([] :: PayloadMessage list) env_open
      = ([done_frame, End], None)"
proof -
  have a: "streamAnthropic sample_platform (Resolved (sample_upstream sample_chunks)) ([] :: PayloadMessage list) env_open
   = ([content_frame sample_platform (JString ''Hi''), done_frame, End], None)"
  using anthropic_relay_frames [where env = env_open and r = "sample_upstream sample_chunks"
      and cs = sample_chunks and pf = sample_platform and ls = sample_lines and rest = "''tail''"
      and messages = "[] :: PayloadMessage list"]
  by (simp add: env_open_def truthy_def sample_upstream_def sample_chunks_def sample_lines_def
        sample_platform_def decode_sample sample_delta_def expected_frames_def is_done_line_def
        text_delta_of_def js_trim_eval startsWith_def sample_parse_def done_frame_def
        content_frame_def)
  have b: "streamAnthropic sample_platform
        (Resolved (sample_upstream
           [[CHR 0xC2, CHR 0xA0] @ ''data: [DONE]'' @ [CHR 0xE3, CHR 0x80, CHR 0x80, CHR 0x0A]]))
        ([] :: PayloadMessage list) env_open
      = ([done_frame, End], None)"
  using anthropic_relay_frames [where env = env_open
      and r = "sample_upstream
           [[CHR 0xC2, CHR 0xA0] @ ''data: [DONE]'' @ [CHR 0xE3, CHR 0x80, CHR 0x80, CHR 0x0A]]"
      and cs = "[[CHR 0xC2, CHR 0xA0] @ ''data: [DONE]'' @ [CHR 0xE3, CHR 0x80, CHR 0x80, CHR 0x0A]]"
      and pf = sample_platform
      and ls = "[[CHR 0xC2, CHR 0xA0] @ ''data: [DONE]'' @ [CHR 0xE3, CHR 0x80, CHR 0x80]]"
      and rest = "[]" and messages = "[] :: PayloadMessage list"]
  by (simp add: env_open_def truthy_def sample_upstream_def
        sample_platform_def decode_sample expected_frames_def is_done_line_def
        js_trim_eval)
  from a b show ?thesis by simp
qed

text \<open>
  C8 as stated fails on the terminator: an upstream body with one text delta and no
  \<^verbatim>\<open>data: [DONE]\<close> line is relayed as one content frame, and the response is closed without
  a terminator frame.
\<close>

theorem anthropic_relay_terminator_counterexample:
  "streamAnthropic sample_platform
     (Resolved (sample_upstream [''data: '' @ sample_delta @ ''\<newline>''])) ([] :: PayloadMessage list) env_open
   = ([content_frame sample_platform (JString ''Hi''), End], None)
   \<and> done_frame \<notin> set [content_frame sample_platform (JString ''Hi''), End]"
  by (simp add: streamAnthropic_def done_frame_def sample_stringify_def env_open_def truthy_def sample_upstream_def
        sample_platform_def decode_sample sample_delta_def relayLine_def js_trim_eval
        startsWith_def sample_parse_def content_frame_def Let_def)

section \<open>Properties of the transport client\<close>

lemma deliver_io:
  "deliver c (st\<lparr>chunkCount := n, decoder := d, buffer := b, rawResponse := r\<rparr>)
   = (deliver c st)\<lparr>chunkCount := n, decoder := d, buffer := b, rawResponse := r\<rparr>"
  by (simp add: deliver_def split: option.splits)

lemma consumeLine_io:
  "consumeLine pf (st\<lparr>chunkCount := n, decoder := d, buffer := b, rawResponse := r\<rparr>) line
   = (consumeLine pf st line)\<lparr>chunkCount := n, decoder := d, buffer := b, rawResponse := r\<rparr>"
  by (simp add: consumeLine_def Let_def deliver_io)

lemma foldl_consumeLine_io:
  "foldl (consumeLine pf) (st\<lparr>chunkCount := n, decoder := d, buffer := b, rawResponse := r\<rparr>) ls
   = (foldl (consumeLine pf) st ls)\<lparr>chunkCount := n, decoder := d, buffer := b, rawResponse := r\<rparr>"
  by (induction ls arbitrary: st) (simp_all add: consumeLine_io)

lemma deliver_fields [simp]:
  "chunkCount (deliver c st) = chunkCount st"
  "decoder (deliver c st) = decoder st"
  "buffer (deliver c st) = buffer st"
  "rawResponse (deliver c st) = rawResponse st"
  by (simp_all add: deliver_def split: option.splits)

lemma consumeLine_fields [simp]:
  "chunkCount (consumeLine pf st l) = chunkCount st"
  "decoder (consumeLine pf st l) = decoder st"
  "buffer (consumeLine pf st l) = buffer st"
  "rawResponse (consumeLine pf st l) = rawResponse st"
  by (simp_all add: consumeLine_def Let_def)

lemma foldl_consumeLine_fields [simp]:
  "chunkCount (foldl (consumeLine pf) st ls) = chunkCount st"
  "decoder (foldl (consumeLine pf) st ls) = decoder st"
  "buffer (foldl (consumeLine pf) st ls) = buffer st"
  "rawResponse (foldl (consumeLine pf) st ls) = rawResponse st"
  by (induction ls arbitrary: st) simp_all

lemma readLoop_chunks:
  assumes "CHR 0x0A \<notin> set (buffer st)"
  shows "readLoop pf st (map Chunk cs) =
     (None,
      (foldl (consumeLine pf) st
         (butlast (split_nl (buffer st @ fst (decode (decoder_step pf) (decoder st) (concat cs))))))
       \<lparr>chunkCount := chunkCount st + length cs,
        decoder := snd (decode (decoder_step pf) (decoder st) (concat cs)),
        buffer := last (split_nl (buffer st @ fst (decode (decoder_step pf) (decoder st) (concat cs)))),
        rawResponse := rawResponse st @ fst (decode (decoder_step pf) (decoder st) (concat cs))\<rparr>)"
  using assms
proof (induction cs arbitrary: st)
  case Nil
  then show ?case by (simp add: split_nl_no_nl)
next
  case (Cons c cs)
  obtain t1 d1 where dc: "decode (decoder_step pf) (decoder st) c = (t1, d1)"
    by (cases "decode (decoder_step pf) (decoder st) c")
  define lines1 where "lines1 = split_nl (buffer st @ t1)"
  define st2 where "st2 = foldl (consumeLine pf)
      (st\<lparr>chunkCount := chunkCount st + 1, decoder := d1, buffer := last lines1,
          rawResponse := rawResponse st @ t1\<rparr>) (butlast lines1)"
  obtain t2 d2 where dc2: "decode (decoder_step pf) d1 (concat cs) = (t2, d2)"
    by (cases "decode (decoder_step pf) d1 (concat cs)")
  have st2_eq: "st2 = (foldl (consumeLine pf) st (butlast lines1))
      \<lparr>chunkCount := chunkCount st + 1, decoder := d1, buffer := last lines1,
          rawResponse := rawResponse st @ t1\<rparr>"
    unfolding st2_def by (rule foldl_consumeLine_io)
  have b2: "CHR 0x0A \<notin> set (buffer st2)"
    by (simp add: st2_eq lines1_def last_split_nl_no_nl)
  have step: "readLoop pf st (map Chunk (c # cs)) = readLoop pf st2 (map Chunk cs)"
    by (simp add: dc Let_def st2_def lines1_def)
  have split: "split_nl (buffer st @ t1 @ t2) = butlast lines1 @ split_nl (last lines1 @ t2)"
    unfolding lines1_def using split_nl_append [of "buffer st @ t1" t2] by simp
  have whole: "decode (decoder_step pf) (decoder st) (c @ concat cs) = (t1 @ t2, d2)"
    by (simp add: decode_append dc dc2)
  show ?case
    unfolding step Cons.IH [OF b2]
    by (simp add: whole st2_eq dc2 split butlast_append foldl_consumeLine_io)
qed

lemma flushBuffer_count:
  "flushBuffer pf (st\<lparr>chunkCount := n\<rparr>) = (flushBuffer pf st)\<lparr>chunkCount := n\<rparr>"
  by (simp add: flushBuffer_def deliver_def split: option.splits)

lemma recoverWholeBody_count:
  "recoverWholeBody pf (st\<lparr>chunkCount := n\<rparr>) = recoverWholeBody pf st"
  by (simp add: recoverWholeBody_def Let_def split: option.splits sum.splits)

lemma chunkCount_flushBuffer [simp]: "chunkCount (flushBuffer pf st) = chunkCount st"
  by (simp add: flushBuffer_def)

text \<open>
  C5. For a response whose body arrives in at least one chunk, the outcome of
  \<^verbatim>\<open>streamChat\<close> (the value returned, every call of \<^verbatim>\<open>onChunk\<close> with its frame content and
  running total, the calls of \<^verbatim>\<open>onComplete\<close>) and the client state after it depend on the
  bytes only, not on where they are cut into chunks: two chunkings of the same bytes, and
  so the bytes in one chunk and the same bytes split anywhere, give the same result.
\<close>

theorem streamChat_chunk_boundaries:
  assumes ne: "cs \<noteq> []" and ne': "cs' \<noteq> []" and same: "concat cs = concat cs'"
  shows "streamChat qs pf messages (Resolved (response\<lparr>bodyReads := Some (map Chunk cs)\<rparr>))
           fallbackFetched s
         = streamChat qs pf messages (Resolved (response\<lparr>bodyReads := Some (map Chunk cs')\<rparr>))
           fallbackFetched s"
proof -
  define st0 where
    "st0 = \<lparr>fullContent = [], buffer = [], rawResponse = [], chunkCount = 0,
            decoder = decoder_init pf, onChunkCalls = []\<rparr>"
  define R where
    "R = (foldl (consumeLine pf) st0
            (butlast (split_nl (buffer st0
               @ fst (decode (decoder_step pf) (decoder st0) (concat cs))))))
         \<lparr>decoder := snd (decode (decoder_step pf) (decoder st0) (concat cs)),
          buffer := last (split_nl (buffer st0
               @ fst (decode (decoder_step pf) (decoder st0) (concat cs)))),
          rawResponse := rawResponse st0
               @ fst (decode (decoder_step pf) (decoder st0) (concat cs))\<rparr>"
  have b0: "CHR 0x0A \<notin> set (buffer st0)" by (simp add: st0_def)
  have r: "readLoop pf st0 (map Chunk cs) = (None, R\<lparr>chunkCount := length cs\<rparr>)"
    using readLoop_chunks [OF b0, of pf cs] by (simp add: R_def st0_def)
  have r': "readLoop pf st0 (map Chunk cs') = (None, R\<lparr>chunkCount := length cs'\<rparr>)"
    using readLoop_chunks [OF b0, of pf cs'] same by (simp add: R_def st0_def)
  have pos: "length cs \<noteq> 0" "length cs' \<noteq> 0" using ne ne' by simp_all
  show ?thesis
    unfolding streamChat_def
    using pos
    by (simp add: r r' st0_def [symmetric] flushBuffer_count recoverWholeBody_count Let_def
          checkAndConsumeQuota_def split: option.splits prod.splits)
qed

theorem streamChat_chunk_boundaries_witness:
  "sample_frames \<noteq> [] \<and> [concat sample_frames] \<noteq> []
   \<and> concat sample_frames = concat [concat sample_frames]
   \<and> streamChat counting_quota sample_platform [''draw'']
        (Resolved ((stream_response [])\<lparr>bodyReads := Some (map Chunk sample_frames)\<rparr>))
        (Rejected (Error ''offline'')) fresh_client
     = streamChat counting_quota sample_platform [''draw'']
        (Resolved ((stream_response [])\<lparr>bodyReads := Some (map Chunk [concat sample_frames])\<rparr>))
        (Rejected (Error ''offline'')) fresh_client
   \<and> fst (streamChat counting_quota sample_platform [''draw'']
        (Resolved ((stream_response [])\<lparr>bodyReads := Some (map Chunk sample_frames)\<rparr>))
        (Rejected (Error ''offline'')) fresh_client)
     = \<lparr>returned = Inr (JString ''X''), chunkCalls = [(JString ''X'', JString ''X'')],
        completeCalls = [JString ''X'']\<rparr>"
proof -
  have ne: "sample_frames \<noteq> []" "[concat sample_frames] \<noteq> []"
    and eq: "concat sample_frames = concat [concat sample_frames]"
    by (simp_all add: sample_frames_def)
  have v: "fst (streamChat counting_quota sample_platform [''draw'']
        (Resolved ((stream_response [])\<lparr>bodyReads := Some (map Chunk sample_frames)\<rparr>))
        (Rejected (Error ''offline'')) fresh_client)
     = \<lparr>returned = Inr (JString ''X''), chunkCalls = [(JString ''X'', JString ''X'')],
        completeCalls = [JString ''X'']\<rparr>"
    by code_simp
  show ?thesis
    using ne eq v streamChat_chunk_boundaries [OF ne eq, of counting_quota sample_platform
      "[''draw'']" "stream_response []" "Rejected (Error ''offline'')" fresh_client]
    by simp
qed

lemma stream_zero_chunks:
  assumes "ensureQuotaAvailable qs (quota s) = None" and "ok response"
    and "bodyReads response = Some []"
  shows "streamChat qs pf messages (Resolved response) fallbackFetched s =
     (case chat qs pf messages fallbackFetched (after_stream qs messages response s) of
        (Inr v, s') \<Rightarrow>
          if js_truthy (Some v)
          then (\<lparr>returned = Inr v, chunkCalls = [(v, v)], completeCalls = [v]\<rparr>, s')
          else (empty_outcome, s')
      | (Inl e, s') \<Rightarrow> (empty_outcome, s'))"
  using assms
  by (simp add: streamChat_def after_stream_def empty_outcome_def flushBuffer_def
        recoverWholeBody_def truthy_def Let_def split: prod.splits sum.splits)

lemma chat_fetchLog:
  "fetchLog (snd (chat qs pf messages fetched s)) =
     fetchLog s @ (if ensureQuotaAvailable qs (quota s) = None then [(messages, False)] else [])"
  by (simp add: chat_def Let_def split: option.splits fetch_result.splits sum.splits)

lemma stream_some_chunks_log:
  assumes "ensureQuotaAvailable qs (quota s) = None" and "ok response"
    and "bodyReads response = Some (map Chunk cs)" and "cs \<noteq> []"
  shows "snd (streamChat qs pf messages (Resolved response) fallbackFetched s)
         = after_stream qs messages response s"
proof -
  define st0 where
    "st0 = \<lparr>fullContent = [], buffer = [], rawResponse = [], chunkCount = 0,
            decoder = decoder_init pf, onChunkCalls = []\<rparr>"
  have b0: "CHR 0x0A \<notin> set (buffer st0)" by (simp add: st0_def)
  obtain st where r: "readLoop pf st0 (map Chunk cs) = (None, st)"
      and n: "chunkCount st = length cs"
    using readLoop_chunks [OF b0, of pf cs] by (simp add: st0_def)
  have "chunkCount st \<noteq> 0" using n assms(4) by simp
  then show ?thesis
    using assms(1-3)
    by (simp add: streamChat_def st0_def [symmetric] r after_stream_def Let_def
          split: prod.splits)
qed

text \<open>
  C6 (as amended). Take a 2xx streaming response with a readable body, the quota check
  passed. If the body delivers no chunk at all, \<^verbatim>\<open>streamChat\<close> calls the non-streaming
  \<^verbatim>\<open>chat\<close> once on the same messages: a truthy result is handed to \<^verbatim>\<open>onChunk\<close> (as
  increment and as total) and \<^verbatim>\<open>onComplete\<close> and is returned; a falsy result or an error
  of the retry gives the empty string. The requests issued are the streaming one and, if
  the quota check that \<^verbatim>\<open>chat\<close> repeats passes, one non-streaming one. If the body
  delivers at least one chunk, the streaming request is the only one issued, whatever the
  content.
\<close>

theorem streamChat_fallback:
  assumes quota_ok: "ensureQuotaAvailable qs (quota s) = None" and ok: "ok response"
    and reads: "bodyReads response = Some (map Chunk cs)"
  shows
    "(cs = [] \<longrightarrow>
        streamChat qs pf messages (Resolved response) fallbackFetched s =
          (case chat qs pf messages fallbackFetched (after_stream qs messages response s) of
             (Inr v, s') \<Rightarrow>
               if js_truthy (Some v)
               then (\<lparr>returned = Inr v, chunkCalls = [(v, v)], completeCalls = [v]\<rparr>, s')
               else (empty_outcome, s')
           | (Inl e, s') \<Rightarrow> (empty_outcome, s'))
        \<and> fetchLog (snd (streamChat qs pf messages (Resolved response) fallbackFetched s)) =
            fetchLog s @ [(messages, True)]
            @ (if ensureQuotaAvailable qs (checkAndConsumeQuota qs response (quota s)) = None
               then [(messages, False)] else []))
     \<and> (cs \<noteq> [] \<longrightarrow>
        fetchLog (snd (streamChat qs pf messages (Resolved response) fallbackFetched s)) =
          fetchLog s @ [(messages, True)])"
proof (intro conjI impI)
  assume z: "cs = []"
  then have zero: "bodyReads response = Some []" using reads by simp
  show c: "streamChat qs pf messages (Resolved response) fallbackFetched s =
          (case chat qs pf messages fallbackFetched (after_stream qs messages response s) of
             (Inr v, s') \<Rightarrow>
               if js_truthy (Some v)
               then (\<lparr>returned = Inr v, chunkCalls = [(v, v)], completeCalls = [v]\<rparr>, s')
               else (empty_outcome, s')
           | (Inl e, s') \<Rightarrow> (empty_outcome, s'))"
    by (rule stream_zero_chunks [OF quota_ok ok zero])
  have "snd (streamChat qs pf messages (Resolved response) fallbackFetched s)
        = snd (chat qs pf messages fallbackFetched (after_stream qs messages response s))"
    unfolding c by (simp split: prod.splits sum.splits)
  then show "fetchLog (snd (streamChat qs pf messages (Resolved response) fallbackFetched s)) =
            fetchLog s @ [(messages, True)]
            @ (if ensureQuotaAvailable qs (checkAndConsumeQuota qs response (quota s)) = None
               then [(messages, False)] else [])"
    by (simp add: chat_fetchLog after_stream_def)
next
  assume "cs \<noteq> []"
  then show "fetchLog (snd (streamChat qs pf messages (Resolved response) fallbackFetched s)) =
          fetchLog s @ [(messages, True)]"
    by (simp add: stream_some_chunks_log [OF quota_ok ok reads] after_stream_def)
qed

lemma js_get_Inl: "js_get v k = Inl e \<Longrightarrow> e = TypeError ''Cannot read properties of null''"
  by (cases v) auto

theorem streamChat_fallback_witness:
  "fst (streamChat counting_quota sample_platform [''draw''] (Resolved (stream_response []))
          (Resolved (json_response ''{\"content\":\"X\"}'')) fresh_client)
     = \<lparr>returned = Inr (JString ''X''), chunkCalls = [(JString ''X'', JString ''X'')],
        completeCalls = [JString ''X'']\<rparr>
   \<and> fetchLog (snd (streamChat counting_quota sample_platform [''draw'']
          (Resolved (stream_response []))
          (Resolved (json_response ''{\"content\":\"X\"}'')) fresh_client))
     = [([''draw''], True), ([''draw''], False)]
   \<and> fetchLog (snd (streamChat counting_quota sample_platform [''draw'']
          (Resolved (stream_response sample_frames))
          (Resolved (json_response ''{\"content\":\"X\"}'')) fresh_client))
     = [([''draw''], True)]"
proof -
  have q: "ensureQuotaAvailable counting_quota (quota fresh_client) = None"
    by code_simp
  have o: "ok (stream_response cs)" for cs by (simp add: stream_response_def)
  have r: "bodyReads (stream_response cs) = Some (map Chunk cs)" for cs
    by (simp add: stream_response_def)
  have c: "chat counting_quota sample_platform [''draw'']
             (Resolved (json_response ''{\"content\":\"X\"}''))
             (after_stream counting_quota [''draw''] (stream_response []) fresh_client)
           = (Inr (JString ''X''),
              \<lparr>quota = 2, currentAbortController = False,
               fetchLog = [([''draw''], True), ([''draw''], False)]\<rparr>)"
    by code_simp
  have q1: "ensureQuotaAvailable counting_quota
              (checkAndConsumeQuota counting_quota (stream_response []) (quota fresh_client)) = None"
    by code_simp
  have l: "fetchLog fresh_client = []" by (simp add: fresh_client_def)
  have ne: "sample_frames \<noteq> []" by (simp add: sample_frames_def)
  show ?thesis
    using streamChat_fallback [OF q o r, of "[]" sample_platform "[''draw'']"
        "Resolved (json_response ''{\"content\":\"X\"}'')"]
      streamChat_fallback [OF q o r, of sample_frames sample_platform "[''draw'']"
        "Resolved (json_response ''{\"content\":\"X\"}'')"]
    by (simp add: c q1 l ne truthy_def)
qed

text \<open>
  C6 as stated fails when the stream delivered a chunk: a body that is the single line
  \<^verbatim>\<open>data: [DONE]\<close> leaves the content empty after the frames and after the whole-body
  attempt (the body is not JSON), and \<^verbatim>\<open>streamChat\<close> returns the empty string with the
  streaming request as the only request, although a retry would have answered.
\<close>

theorem streamChat_fallback_counterexample:
  "streamChat counting_quota sample_platform [''draw'']
      (Resolved (stream_response [''data: [DONE]\<newline>'']))
      (Resolved (json_response ''{\"content\":\"X\"}'')) fresh_client
   = (\<lparr>returned = Inr (JString []), chunkCalls = [], completeCalls = [JString []]\<rparr>,
      \<lparr>quota = 1, currentAbortController = False, fetchLog = [([''draw''], True)]\<rparr>)"
  by code_simp

text \<open>
  C10. With the quota check passed and a response received: when the status is 2xx and the
  body is a JSON object with neither a \<^verbatim>\<open>content\<close> nor a \<^verbatim>\<open>message\<close> field, \<^verbatim>\<open>chat\<close>
  returns the empty string; and it throws the request-failed error exactly when the
  status is not 2xx.
\<close>

theorem chat_missing_fields:
  assumes quota_ok: "ensureQuotaAvailable qs (quota s) = None"
  shows
    "(ok response \<and> json_parse pf (bodyText response) = Some (JObject kvs)
        \<and> map_of (rev kvs) ''content'' = None \<and> map_of (rev kvs) ''message'' = None \<longrightarrow>
        fst (chat qs pf messages (Resolved response) s) = Inr (JString []))
     \<and> ((\<exists>t. fst (chat qs pf messages (Resolved response) s)
               = Inl (Error (''AI request failed: '' @ t))) \<longleftrightarrow> \<not> ok response)"
  using quota_ok
  by (auto simp: chat_def Let_def js_or_def truthy_def dest: js_get_Inl
        split: option.splits sum.splits)

theorem chat_missing_fields_witness:
  "fst (chat counting_quota sample_platform [''draw''] (Resolved (json_response ''{}''))
          fresh_client) = Inr (JString [])
   \<and> (\<exists>t. fst (chat counting_quota sample_platform [''draw'']
                 (Resolved (error_response ''upstream down'')) fresh_client)
            = Inl (Error (''AI request failed: '' @ t)))"
proof -
  have q: "ensureQuotaAvailable counting_quota (quota fresh_client) = None"
    by code_simp
  have p: "json_parse sample_platform (bodyText (json_response ''{}'')) = Some (JObject [])"
    by code_simp
  have o: "ok (json_response ''{}'')" by (simp add: json_response_def)
  have n: "\<not> ok (error_response ''upstream down'')" by (simp add: error_response_def)
  show ?thesis
    using chat_missing_fields [OF q, of "json_response ''{}''" sample_platform "[]" "[''draw'']"]
      chat_missing_fields [OF q, of "error_response ''upstream down''" sample_platform "[]"
        "[''draw'']"]
    by (simp add: p o n)
qed

section \<open>Properties of the orchestrator\<close>

declare autoFixLoop.simps [simp del]

lemma andThen_simps:
  "andThen (Done x, s) f = f x s"
  "andThen (Throws e, s) f = (Throws e, s)"
  "andThen (Pending k, s) f = (Pending (\<lambda>outcome s'. andThen (k outcome s') f), s)"
  by (auto simp: andThen_def fun_eq_iff split: prod.splits)

lemma tryCatchFinally_simps:
  "tryCatchFinally i (Done u, s) = (Done (), generateFinally s)"
  "tryCatchFinally i (Throws e, s) = (Done (), generateFinally (generateCatch i e s))"
  "tryCatchFinally i (Pending k, s) = (Pending (\<lambda>outcome s'. tryCatchFinally i (k outcome s')), s)"
  by (auto simp: tryCatchFinally_def fun_eq_iff split: prod.splits)

lemma attachmentParts_one:
  "attachmentParts a =
     [case att_type a of
        ImageAttachment \<Rightarrow> ImageUrlPart (dataUrl a)
      | DocumentAttachment \<Rightarrow> TextPart (''\<newline>\<newline>[Document: '' @ fileName a @ '']\<newline>'' @ att_content a)
      | UrlAttachment \<Rightarrow> TextPart (''\<newline>\<newline>[URL: '' @ title a @ '']\<newline>'' @ att_content a)]"
  by (cases "att_type a") (simp_all add: attachmentParts_def)

text \<open>
  C4 (as amended). With no attachment (none given, or an empty list) and no preview (none
  given, or nothing left of it after \<^verbatim>\<open>trim()\<close>, which removes the white space of JavaScript
  inside ASCII and outside) the built content is the plain text. Otherwise it is a list
  of parts: the preview image first when the preview is not blank, then one text part
  when the text is not empty, then one part for each attachment in input order: an image
  part for an image, a text part carrying the extracted content for a document or a url.
\<close>

theorem buildMultimodalContent_shape:
  "(attachments \<in> {None, Some []} \<and> blank currentThumbnail \<longrightarrow>
      buildMultimodalContent text attachments currentThumbnail = Text text)
   \<and> (\<not> (attachments \<in> {None, Some []} \<and> blank currentThumbnail) \<longrightarrow>
      buildMultimodalContent text attachments currentThumbnail =
        Parts ((case currentThumbnail of
                  None \<Rightarrow> []
                | Some t \<Rightarrow> if js_trim t = [] then [] else [ImageUrlPart t])
               @ (if text = [] then [] else [TextPart text])
               @ map (\<lambda>a. case att_type a of
                        ImageAttachment \<Rightarrow> ImageUrlPart (dataUrl a)
                      | DocumentAttachment \<Rightarrow>
                          TextPart (''\<newline>\<newline>[Document: '' @ fileName a @ '']\<newline>''
                                    @ att_content a)
                      | UrlAttachment \<Rightarrow>
                          TextPart (''\<newline>\<newline>[URL: '' @ title a @ '']\<newline>''
                                    @ att_content a))
                   (case attachments of None \<Rightarrow> [] | Some as \<Rightarrow> as)))"
proof -
  have c: "concat (map attachmentParts as) =
      map (\<lambda>a. case att_type a of
                        ImageAttachment \<Rightarrow> ImageUrlPart (dataUrl a)
                      | DocumentAttachment \<Rightarrow>
                          TextPart (''\<newline>\<newline>[Document: '' @ fileName a @ '']\<newline>''
                                    @ att_content a)
                      | UrlAttachment \<Rightarrow>
                          TextPart (''\<newline>\<newline>[URL: '' @ title a @ '']\<newline>''
                                    @ att_content a)) as" for as
    by (induction as) (simp_all add: attachmentParts_one)
  show ?thesis
    by (cases attachments; cases currentThumbnail)
       (auto simp: buildMultimodalContent_def blank_def truthy_def c Let_def)
qed

theorem buildMultimodalContent_shape_witness:
  "buildMultimodalContent ''draw a cat'' None (Some ''  '') = Text ''draw a cat''
   \<and> buildMultimodalContent ''draw a cat'' None (Some [CHR 0xC2, CHR 0xA0, CHR 0xE3, CHR 0x80, CHR 0x80])
       = Text ''draw a cat''
   \<and> buildMultimodalContent ''draw a cat'' (Some [sample_document, sample_image])
        (Some ''data:image/png;base64,BBBB'')
      = Parts [ImageUrlPart ''data:image/png;base64,BBBB'', TextPart ''draw a cat'',
               TextPart ''\<newline>\<newline>[Document: notes.txt]\<newline>three steps'',
               ImageUrlPart ''data:image/png;base64,AAAA'']"
  using buildMultimodalContent_shape [of None "Some ''  ''" "''draw a cat''"]
    buildMultimodalContent_shape [of None "Some [CHR 0xC2, CHR 0xA0, CHR 0xE3, CHR 0x80, CHR 0x80]" "''draw a cat''"]
    buildMultimodalContent_shape [of "Some [sample_document, sample_image]"
      "Some ''data:image/png;base64,BBBB''" "''draw a cat''"]
  by (simp add: blank_def js_trim_eval sample_document_def sample_image_def)

text \<open>
  C4 as stated fails on two inputs: with an empty text and one image attachment the list
  has no text part, and a preview of two spaces (not empty) with no attachment gives the
  plain text, not a list.
\<close>

theorem buildMultimodalContent_counterexample:
  "buildMultimodalContent [] (Some [sample_image]) None
     = Parts [ImageUrlPart ''data:image/png;base64,AAAA'']
   \<and> buildMultimodalContent ''draw a cat'' None (Some ''  '') = Text ''draw a cat''"
  by (simp add: buildMultimodalContent_def attachmentParts_def sample_image_def truthy_def
        js_trim_eval)

subsection \<open>The repair loop\<close>

lemma updateMessage_fields [simp]:
  "network (updateMessage i d s) = network s"
  "sent (updateMessage i d s) = sent s"
  "isGeneratingRef (updateMessage i d s) = isGeneratingRef s"
  "errorToasts (updateMessage i d s) = errorToasts s"
  "currentProject (updateMessage i d s) = currentProject s"
  by (simp_all add: updateMessage_def)

lemma setMessages_fields [simp]:
  "network (setMessages ms s) = network s"
  "sent (setMessages ms s) = sent s"
  "isGeneratingRef (setMessages ms s) = isGeneratingRef s"
  "errorToasts (setMessages ms s) = errorToasts s"
  "chatMessages (setMessages ms s) = chatMessages s"
  "currentProject (setMessages ms s) = currentProject s"
  by (simp_all add: setMessages_def)

lemma progressCallback_fields [simp]:
  "network (progressCallback i l c a s) = network s"
  "sent (progressCallback i l c a s) = sent s"
  "isGeneratingRef (progressCallback i l c a s) = isGeneratingRef s"
  "errorToasts (progressCallback i l c a s) = errorToasts s"
  "currentProject (progressCallback i l c a s) = currentProject s"
  by (simp_all add: progressCallback_def)

lemma callbacks_fields [simp]:
  "network (foldl (\<lambda>st (c, a). progressCallback i l c a st) s incs) = network s"
  "sent (foldl (\<lambda>st (c, a). progressCallback i l c a st) s incs) = sent s"
  "isGeneratingRef (foldl (\<lambda>st (c, a). progressCallback i l c a st) s incs) = isGeneratingRef s"
  "errorToasts (foldl (\<lambda>st (c, a). progressCallback i l c a st) s incs) = errorToasts s"
  "currentProject (foldl (\<lambda>st (c, a). progressCallback i l c a st) s incs) = currentProject s"
  by (induction incs arbitrary: s) (simp_all split: prod.splits)

lemma streamChatCall_settled:
  assumes "network s = out # later" and "ending out = Inr r"
  shows "\<exists>s'. streamChatCall ms (progressCallback i l) s = (Done r, s')
              \<and> network s' = later \<and> sent s' = sent s @ [ms]
              \<and> isGeneratingRef s' = isGeneratingRef s"
  using assms by (simp add: streamChatCall_def settle_def Let_def)

lemma streamChatCall_sent:
  "sent (snd (streamChatCall ms (progressCallback i l) s)) = sent s @ [ms]"
  by (simp add: streamChatCall_def settle_def Let_def split: list.splits sum.splits)

lemma autoFixLoop_exhausts:
  assumes "network s = outs @ later"
    and "map ending outs = map Inr rs"
    and "attempts + length rs = maxAttempts F"
    and "\<forall>r \<in> set rs. \<not> vr_valid (validateContent D (extractCode D r (fixEngine F)) (fixEngine F))"
  shows "\<exists>s'. autoFixLoop D F sp aid code err attempts s =
                 (Done (last (code # map (\<lambda>r. extractCode D r (fixEngine F)) rs)), s')
              \<and> network s' = later \<and> length (sent s') = length (sent s) + length rs"
  using assms
proof (induction rs arbitrary: outs code err attempts s)
  case Nil
  then show ?case by (simp add: autoFixLoop.simps)
next
  case (Cons r rs)
  from Cons.prems(2) obtain out outs' where outs: "outs = out # outs'"
    and out: "ending out = Inr r" and rest: "map ending outs' = map Inr rs"
    by (cases outs) auto
  let ?att = "attempts + 1"
  let ?s1 = "updateMessage aid
      \<lparr>patch_content = Some (attemptText F ?att @ ''\<newline>''
          @ [CHR 0xE9, CHR 0x94, CHR 0x99, CHR 0xE8, CHR 0xAF, CHR 0xAF] @ '': '' @ err),
       patch_status = Some StatusStreaming\<rparr> s"
  let ?ms = "[systemMessage sp, \<lparr>msg_role = RoleUser, msg_content = Text (fixPrompt F err code)\<rparr>]"
  let ?s2 = "setMessages ?ms ?s1"
  have net2: "network ?s2 = out # (outs' @ later)" using Cons.prems(1) outs by simp
  obtain s3 where call: "streamChatCall ?ms (progressCallback aid (attemptText F ?att)) ?s2 = (Done r, s3)"
    and net3: "network s3 = outs' @ later" and sent3: "sent s3 = sent ?s2 @ [?ms]"
    using streamChatCall_settled [OF net2 out] by blast
  let ?fixed = "extractCode D r (fixEngine F)"
  have inv: "\<not> vr_valid (validateContent D ?fixed (fixEngine F))" using Cons.prems(4) by simp
  have lt: "attempts < maxAttempts F" using Cons.prems(3) by simp
  have step: "autoFixLoop D F sp aid code err attempts s =
      autoFixLoop D F sp aid ?fixed
        (or_else (vr_error (validateContent D ?fixed (fixEngine F))) ''Unknown error'') ?att s3"
    using lt call inv by (subst autoFixLoop.simps) (simp add: Let_def andThen_simps)
  have a: "(attempts + 1) + length rs = maxAttempts F" using Cons.prems(3) by simp
  have b: "\<forall>r \<in> set rs. \<not> vr_valid (validateContent D (extractCode D r (fixEngine F)) (fixEngine F))"
    using Cons.prems(4) by simp
  obtain s' where "autoFixLoop D F sp aid ?fixed
        (or_else (vr_error (validateContent D ?fixed (fixEngine F))) ''Unknown error'') ?att s3
       = (Done (last (?fixed # map (\<lambda>r. extractCode D r (fixEngine F)) rs)), s')"
    and "network s' = later" and "length (sent s') = length (sent s3) + length rs"
    using Cons.IH [OF net3 rest a b] by blast
  then show ?case using step sent3 by simp
qed


lemma autoFixLoop_stops:
  assumes "network s = outs @ later"
    and "map ending outs = map Inr (pre @ [r])"
    and "attempts + length pre < maxAttempts F"
    and "\<forall>p \<in> set pre. \<not> vr_valid (validateContent D (extractCode D p (fixEngine F)) (fixEngine F))"
    and "vr_valid (validateContent D (extractCode D r (fixEngine F)) (fixEngine F))"
  shows "\<exists>s'. autoFixLoop D F sp aid code err attempts s =
                 (Done (extractCode D r (fixEngine F)), s')
              \<and> network s' = later \<and> length (sent s') = length (sent s) + length pre + 1"
  using assms
proof (induction pre arbitrary: outs code err attempts s)
  case Nil
  from Nil.prems(2) obtain out where outs: "outs = [out]" and out: "ending out = Inr r"
    by (cases outs) auto
  let ?ms = "[systemMessage sp, \<lparr>msg_role = RoleUser, msg_content = Text (fixPrompt F err code)\<rparr>]"
  let ?s2 = "setMessages ?ms (updateMessage aid
      \<lparr>patch_content = Some (attemptText F (attempts + 1) @ ''\<newline>''
          @ [CHR 0xE9, CHR 0x94, CHR 0x99, CHR 0xE8, CHR 0xAF, CHR 0xAF] @ '': '' @ err),
       patch_status = Some StatusStreaming\<rparr> s)"
  have net2: "network ?s2 = out # later" using Nil.prems(1) outs by simp
  obtain s3 where call: "streamChatCall ?ms (progressCallback aid (attemptText F (attempts + 1))) ?s2
        = (Done r, s3)"
    and net3: "network s3 = later" and sent3: "sent s3 = sent ?s2 @ [?ms]"
    using streamChatCall_settled [OF net2 out] by blast
  have lt: "attempts < maxAttempts F" using Nil.prems(3) by simp
  have "autoFixLoop D F sp aid code err attempts s = (Done (extractCode D r (fixEngine F)), s3)"
    using lt call Nil.prems(5) by (subst autoFixLoop.simps) (simp add: Let_def andThen_simps)
  then show ?case using net3 sent3 by simp
next
  case (Cons p pre)
  from Cons.prems(2) obtain out outs' where outs: "outs = out # outs'"
    and out: "ending out = Inr p" and rest: "map ending outs' = map Inr (pre @ [r])"
    by (cases outs) auto
  let ?ms = "[systemMessage sp, \<lparr>msg_role = RoleUser, msg_content = Text (fixPrompt F err code)\<rparr>]"
  let ?s2 = "setMessages ?ms (updateMessage aid
      \<lparr>patch_content = Some (attemptText F (attempts + 1) @ ''\<newline>''
          @ [CHR 0xE9, CHR 0x94, CHR 0x99, CHR 0xE8, CHR 0xAF, CHR 0xAF] @ '': '' @ err),
       patch_status = Some StatusStreaming\<rparr> s)"
  have net2: "network ?s2 = out # (outs' @ later)" using Cons.prems(1) outs by simp
  obtain s3 where call: "streamChatCall ?ms (progressCallback aid (attemptText F (attempts + 1))) ?s2
        = (Done p, s3)"
    and net3: "network s3 = outs' @ later" and sent3: "sent s3 = sent ?s2 @ [?ms]"
    using streamChatCall_settled [OF net2 out] by blast
  let ?fixed = "extractCode D p (fixEngine F)"
  have inv: "\<not> vr_valid (validateContent D ?fixed (fixEngine F))" using Cons.prems(4) by simp
  have lt: "attempts < maxAttempts F" using Cons.prems(3) by simp
  have step: "autoFixLoop D F sp aid code err attempts s =
      autoFixLoop D F sp aid ?fixed
        (or_else (vr_error (validateContent D ?fixed (fixEngine F))) ''Unknown error'')
        (attempts + 1) s3"
    using lt call inv by (subst autoFixLoop.simps) (simp add: Let_def andThen_simps)
  have a: "(attempts + 1) + length pre < maxAttempts F" using Cons.prems(3) by simp
  have b: "\<forall>p \<in> set pre. \<not> vr_valid (validateContent D (extractCode D p (fixEngine F)) (fixEngine F))"
    using Cons.prems(4) by simp
  obtain s' where "autoFixLoop D F sp aid ?fixed
        (or_else (vr_error (validateContent D ?fixed (fixEngine F))) ''Unknown error'')
        (attempts + 1) s3
       = (Done (extractCode D r (fixEngine F)), s')"
    and "network s' = later" and "length (sent s') = length (sent s3) + length pre + 1"
    using Cons.IH [OF net3 rest a b Cons.prems(5)] by blast
  then show ?case using step sent3 by simp
qed

lemma autoFixLoop_bound:
  "length (sent (snd (autoFixLoop D F sp aid code err attempts s)))
     \<le> length (sent s) + (maxAttempts F - attempts)"
proof (induction D F sp aid code err attempts s rule: autoFixLoop.induct)
  case (1 D F sp aid code err attempts s)
  show ?case
  proof (cases "attempts < maxAttempts F")
    case False
    then show ?thesis by (subst autoFixLoop.simps) simp
  next
    case True
    let ?ms = "[systemMessage sp, \<lparr>msg_role = RoleUser, msg_content = Text (fixPrompt F err code)\<rparr>]"
    let ?s2 = "setMessages ?ms (updateMessage aid
      \<lparr>patch_content = Some (attemptText F (attempts + 1) @ ''\<newline>''
          @ ([CHR 0xE9, CHR 0x94, CHR 0x99, CHR 0xE8, CHR 0xAF, CHR 0xAF] @ '': '') @ err),
       patch_status = Some StatusStreaming\<rparr> s)"
    let ?call = "streamChatCall ?ms (progressCallback aid (attemptText F (attempts + 1))) ?s2"
    have sent_call: "sent (snd ?call) = sent s @ [?ms]"
      by (simp add: streamChatCall_sent)
    show ?thesis
    proof (cases ?call)
      case (Pair c s3)
      then have s3: "length (sent s3) = length (sent s) + 1" using sent_call by simp
      show ?thesis
      proof (cases c)
        case (Done response)
        show ?thesis
        proof (cases "vr_valid (validateContent D (extractCode D response (fixEngine F)) (fixEngine F))")
          case True
          with \<open>attempts < maxAttempts F\<close> Pair Done s3 show ?thesis
            by (subst autoFixLoop.simps) (simp add: Let_def andThen_simps)
        next
          case False
          have "length (sent (snd (autoFixLoop D F sp aid (extractCode D response (fixEngine F))
                  (or_else (vr_error (validateContent D (extractCode D response (fixEngine F))
                     (fixEngine F))) ''Unknown error'') (attempts + 1) s3)))
                \<le> length (sent s3) + (maxAttempts F - (attempts + 1))"
            using "1.IH" [OF True refl refl refl refl refl refl False]
            by simp
          with \<open>attempts < maxAttempts F\<close> Pair Done s3 False show ?thesis
            by (subst autoFixLoop.simps) (simp add: Let_def andThen_simps)
        qed
      next
        case (Throws e)
        with \<open>attempts < maxAttempts F\<close> Pair s3 show ?thesis
          by (subst autoFixLoop.simps) (simp add: Let_def andThen_simps)
      next
        case (Pending k)
        with \<open>attempts < maxAttempts F\<close> Pair s3 show ?thesis
          by (subst autoFixLoop.simps) (simp add: Let_def andThen_simps)
      qed
    qed
  qed
qed

text \<open>
  C2. Let the transport settle its next calls with the outcomes \<open>outs\<close>, each returning a
  response text (\<open>rs\<close>), and let \<open>run\<close> be the Mermaid loop with its ceiling 3 or the
  Excalidraw loop with its ceiling 2. If as many responses as the ceiling all fail
  validation, the loop makes exactly that many transport calls, one per response, and
  returns the artifact of the last response, not the artifact it was given. If the
  responses up to some attempt within the ceiling fail and the next one validates, the
  loop returns that artifact after exactly that many calls and leaves the later outcomes
  untouched. Whatever the transport does, the loop never makes more calls than its
  ceiling.
\<close>

theorem repair_loop_contract:
  assumes which: "(run = attemptMermaidAutoFix \<and> F = mermaidFix \<and> limit = 3)
                  \<or> (run = attemptExcalidrawAutoFix \<and> F = excalidrawFix \<and> limit = 2)"
    and net: "network s = outs @ later"
    and ret: "map ending outs = map Inr rs"
  shows
    "(length rs = limit
        \<and> (\<forall>r \<in> set rs. \<not> vr_valid (validateContent D (extractCode D r (fixEngine F)) (fixEngine F)))
      \<longrightarrow> (\<exists>s'. run D failedCode errorText systemPrompt assistantMsgId s
                    = (Done (extractCode D (last rs) (fixEngine F)), s')
                 \<and> network s' = later \<and> length (sent s') = length (sent s) + limit))
     \<and> (\<forall>pre r. rs = pre @ [r] \<and> length rs \<le> limit
           \<and> (\<forall>p \<in> set pre. \<not> vr_valid (validateContent D (extractCode D p (fixEngine F)) (fixEngine F)))
           \<and> vr_valid (validateContent D (extractCode D r (fixEngine F)) (fixEngine F))
         \<longrightarrow> (\<exists>s'. run D failedCode errorText systemPrompt assistantMsgId s
                    = (Done (extractCode D r (fixEngine F)), s')
                 \<and> network s' = later \<and> length (sent s') = length (sent s) + length rs))
     \<and> length (sent (snd (run D failedCode errorText systemPrompt assistantMsgId s)))
           \<le> length (sent s) + limit"
proof -
  have run: "run D failedCode errorText systemPrompt assistantMsgId s
             = autoFixLoop D F systemPrompt assistantMsgId failedCode errorText 0 s"
    and lim: "maxAttempts F = limit" and pos: "0 < limit"
    using which
    by (auto simp: attemptMermaidAutoFix_def attemptExcalidrawAutoFix_def mermaidFix_def
          excalidrawFix_def MAX_MERMAID_FIX_ATTEMPTS_def MAX_EXCALIDRAW_FIX_ATTEMPTS_def)
  show ?thesis
  proof (intro conjI impI allI)
    assume h: "length rs = limit
        \<and> (\<forall>r \<in> set rs. \<not> vr_valid (validateContent D (extractCode D r (fixEngine F)) (fixEngine F)))"
    then have ne: "rs \<noteq> []" using pos by auto
    have "0 + length rs = maxAttempts F" using h lim by simp
    from autoFixLoop_exhausts [OF net ret this, of D systemPrompt assistantMsgId failedCode errorText]
    obtain s' where "autoFixLoop D F systemPrompt assistantMsgId failedCode errorText 0 s
          = (Done (last (failedCode # map (\<lambda>r. extractCode D r (fixEngine F)) rs)), s')"
        and "network s' = later" and "length (sent s') = length (sent s) + length rs"
      using h by blast
    then show "\<exists>s'. run D failedCode errorText systemPrompt assistantMsgId s
                    = (Done (extractCode D (last rs) (fixEngine F)), s')
                 \<and> network s' = later \<and> length (sent s') = length (sent s) + limit"
      using ne h by (simp add: run last_map)
  next
    fix pre r
    assume h: "rs = pre @ [r] \<and> length rs \<le> limit
           \<and> (\<forall>p \<in> set pre. \<not> vr_valid (validateContent D (extractCode D p (fixEngine F)) (fixEngine F)))
           \<and> vr_valid (validateContent D (extractCode D r (fixEngine F)) (fixEngine F))"
    then have ret': "map ending outs = map Inr (pre @ [r])" using ret by simp
    have lt: "0 + length pre < maxAttempts F" using h lim by auto
    from autoFixLoop_stops [OF net ret' lt, of D systemPrompt assistantMsgId failedCode errorText]
    obtain s' where "autoFixLoop D F systemPrompt assistantMsgId failedCode errorText 0 s
          = (Done (extractCode D r (fixEngine F)), s')"
        and "network s' = later" and "length (sent s') = length (sent s) + length pre + 1"
      using h by blast
    then show "\<exists>s'. run D failedCode errorText systemPrompt assistantMsgId s
                    = (Done (extractCode D r (fixEngine F)), s')
                 \<and> network s' = later \<and> length (sent s') = length (sent s) + length rs"
      using h by (simp add: run)
  next
    show "length (sent (snd (run D failedCode errorText systemPrompt assistantMsgId s)))
           \<le> length (sent s) + limit"
      using autoFixLoop_bound [of D F systemPrompt assistantMsgId failedCode errorText 0 s]
      by (simp add: run lim)
  qed
qed

lemmas sample_eval =
  sample_deps_def idle_state_def answers_def js_trim_eval startsWith_def
  mermaidFix_def excalidrawFix_def

theorem repair_loop_contract_witness:
  "fst (attemptMermaidAutoFix sample_deps ''bad'' ''Parse error'' ''sys'' 1
          (idle_state Mermaid [answers ''oops'', answers ''oops2'', answers ''oops3'',
                               answers ''late''])) = Done ''oops3''
   \<and> fst (attemptMermaidAutoFix sample_deps ''bad'' ''Parse error'' ''sys'' 1
          (idle_state Mermaid [answers ''oops'', answers ''graph LR'', answers ''late'']))
       = Done ''graph LR''
   \<and> fst (attemptExcalidrawAutoFix sample_deps ''bad'' ''Parse error'' ''sys'' 1
          (idle_state Excalidraw [answers ''oops'', answers ''oops2'', answers ''late'']))
       = Done ''oops2''
   \<and> length (sent (snd (attemptMermaidAutoFix sample_deps ''bad'' ''Parse error'' ''sys'' 1
          (idle_state Mermaid [answers ''oops'', answers ''oops2'', answers ''oops3'',
                               answers ''late''])))) \<le> 3"
proof -
  have a: "\<exists>s'. attemptMermaidAutoFix sample_deps ''bad'' ''Parse error'' ''sys'' 1
          (idle_state Mermaid [answers ''oops'', answers ''oops2'', answers ''oops3'',
                               answers ''late'']) = (Done ''oops3'', s')"
    using repair_loop_contract [where run = attemptMermaidAutoFix and F = mermaidFix and limit = 3
        and s = "idle_state Mermaid [answers ''oops'', answers ''oops2'', answers ''oops3'',
                               answers ''late'']"
        and outs = "[answers ''oops'', answers ''oops2'', answers ''oops3'']"
        and later = "[answers ''late'']" and rs = "[''oops'', ''oops2'', ''oops3'']"
        and D = sample_deps and failedCode = "''bad''" and errorText = "''Parse error''"
        and systemPrompt = "''sys''" and assistantMsgId = 1]
    by (simp add: sample_eval) blast
  have b: "\<exists>s'. attemptMermaidAutoFix sample_deps ''bad'' ''Parse error'' ''sys'' 1
          (idle_state Mermaid [answers ''oops'', answers ''graph LR'', answers ''late''])
            = (Done ''graph LR'', s')"
    using repair_loop_contract [where run = attemptMermaidAutoFix and F = mermaidFix and limit = 3
        and s = "idle_state Mermaid [answers ''oops'', answers ''graph LR'', answers ''late'']"
        and outs = "[answers ''oops'', answers ''graph LR'']"
        and later = "[answers ''late'']" and rs = "[''oops'', ''graph LR'']"
        and D = sample_deps and failedCode = "''bad''" and errorText = "''Parse error''"
        and systemPrompt = "''sys''" and assistantMsgId = 1]
    by (simp add: sample_eval) (metis append_Cons append_Nil)
  have c: "\<exists>s'. attemptExcalidrawAutoFix sample_deps ''bad'' ''Parse error'' ''sys'' 1
          (idle_state Excalidraw [answers ''oops'', answers ''oops2'', answers ''late''])
            = (Done ''oops2'', s')"
    using repair_loop_contract [where run = attemptExcalidrawAutoFix and F = excalidrawFix
        and limit = 2
        and s = "idle_state Excalidraw [answers ''oops'', answers ''oops2'', answers ''late'']"
        and outs = "[answers ''oops'', answers ''oops2'']"
        and later = "[answers ''late'']" and rs = "[''oops'', ''oops2'']"
        and D = sample_deps and failedCode = "''bad''" and errorText = "''Parse error''"
        and systemPrompt = "''sys''" and assistantMsgId = 1]
    by (simp add: sample_eval) blast
  have d: "length (sent (snd (attemptMermaidAutoFix sample_deps ''bad'' ''Parse error'' ''sys'' 1
          (idle_state Mermaid [answers ''oops'', answers ''oops2'', answers ''oops3'',
                               answers ''late''])))) \<le> 3"
    using repair_loop_contract [where run = attemptMermaidAutoFix and F = mermaidFix and limit = 3
        and s = "idle_state Mermaid [answers ''oops'', answers ''oops2'', answers ''oops3'',
                               answers ''late'']"
        and outs = "[answers ''oops'', answers ''oops2'', answers ''oops3'']"
        and later = "[answers ''late'']" and rs = "[''oops'', ''oops2'', ''oops3'']"
        and D = sample_deps and failedCode = "''bad''" and errorText = "''Parse error''"
        and systemPrompt = "''sys''" and assistantMsgId = 1]
    by (simp add: sample_eval)
  from a b c d show ?thesis by auto
qed

subsection \<open>What a generation leaves alone\<close>

lemma frame_refl [simp]: "frame s s"
  by (simp add: frame_def)

lemma frame_trans: "frame s s1 \<Longrightarrow> frame s1 s2 \<Longrightarrow> frame s s2"
  by (auto simp: frame_def)

lemma applyPatch_id [simp]: "cm_id (applyPatch d m) = cm_id m"
  by (simp add: applyPatch_def)

lemma frame_updateMessage [simp]: "frame s (updateMessage i d s)"
  by (simp add: frame_def updateMessage_def comp_def)

lemma frame_setMessages [simp]: "frame s (setMessages ms s)"
  by (simp add: frame_def setMessages_def)

lemma frame_progressCallback [simp]: "frame s (progressCallback i l c a s)"
  by (simp add: progressCallback_def)

lemma frame_callbacks: "frame s (foldl (\<lambda>st (c, a). progressCallback i l c a st) s incs)"
proof (induction incs arbitrary: s)
  case Nil
  then show ?case by simp
next
  case (Cons x incs)
  obtain c a where x: "x = (c, a)" by (cases x)
  have "frame s (progressCallback i l c a s)" by simp
  moreover have "frame (progressCallback i l c a s)
      (foldl (\<lambda>st (c, a). progressCallback i l c a st) (progressCallback i l c a s) incs)"
    by (rule Cons.IH)
  ultimately have "frame s
      (foldl (\<lambda>st (c, a). progressCallback i l c a st) (progressCallback i l c a s) incs)"
    by (rule frame_trans)
  then show ?case using x by simp
qed

lemma frame_log: "frame s (s\<lparr>sent := sent s @ [ms]\<rparr>)"
  by (simp add: frame_def)

lemma frame_network: "frame s (s\<lparr>network := n\<rparr>)"
  by (simp add: frame_def)

lemma frame_streamChatCall: "frame s (snd (streamChatCall ms (progressCallback i l) s))"
proof (cases "network s")
  case Nil
  then show ?thesis by (simp add: streamChatCall_def Let_def frame_log)
next
  case (Cons out later)
  let ?s1 = "s\<lparr>sent := sent s @ [ms]\<rparr>"
  let ?s2 = "?s1\<lparr>network := later\<rparr>"
  have "frame s ?s2" by (simp add: frame_def)
  moreover have "frame ?s2 (foldl (\<lambda>st (c, a). progressCallback i l c a st) ?s2 (increments out))"
    by (rule frame_callbacks)
  ultimately have "frame s (foldl (\<lambda>st (c, a). progressCallback i l c a st) ?s2 (increments out))"
    by (rule frame_trans)
  then show ?thesis using Cons
    by (simp add: streamChatCall_def settle_def Let_def split: sum.splits)
qed

lemma frame_then_updateMessage: "frame s s1 \<Longrightarrow> frame s (updateMessage i d s1)"
  by (rule frame_trans [OF _ frame_updateMessage])

lemma frame_then_setMessages: "frame s s1 \<Longrightarrow> frame s (setMessages ms s1)"
  by (rule frame_trans [OF _ frame_setMessages])

lemma frame_then_streamChatCall:
  "frame s s1 \<Longrightarrow> frame s (snd (streamChatCall ms (progressCallback i l) s1))"
  by (rule frame_trans [OF _ frame_streamChatCall])

lemmas frame_steps =
  frame_then_streamChatCall frame_then_setMessages frame_then_updateMessage frame_refl

lemma frame_andThen:
  assumes "frame s (snd m)" and "\<And>x s1. frame s1 (snd (f x s1))"
  shows "frame s (snd (andThen m f))"
proof (cases m)
  case (Pair c s1)
  show ?thesis
  proof (cases c)
    case (Done x)
    then show ?thesis using Pair assms(1) assms(2) [of s1 x]
      by (auto simp: andThen_simps intro: frame_trans)
  qed (use Pair assms(1) in \<open>simp_all add: andThen_simps\<close>)
qed

lemma frame_autoFixLoop: "frame s (snd (autoFixLoop D F sp aid code err attempts s))"
proof (induction D F sp aid code err attempts s rule: autoFixLoop.induct)
  case (1 D F sp aid code err attempts s)
  show ?case
  proof (cases "attempts < maxAttempts F")
    case False
    then show ?thesis by (subst autoFixLoop.simps) simp
  next
    case True
    let ?ms = "[systemMessage sp, \<lparr>msg_role = RoleUser, msg_content = Text (fixPrompt F err code)\<rparr>]"
    let ?s1 = "updateMessage aid
      \<lparr>patch_content = Some (attemptText F (attempts + 1) @ ''\<newline>''
          @ ([CHR 0xE9, CHR 0x94, CHR 0x99, CHR 0xE8, CHR 0xAF, CHR 0xAF] @ '': '') @ err),
       patch_status = Some StatusStreaming\<rparr> s"
    let ?s2 = "setMessages ?ms ?s1"
    let ?call = "streamChatCall ?ms (progressCallback aid (attemptText F (attempts + 1))) ?s2"
    have f2: "frame s ?s2"
      by (rule frame_trans [of s ?s1]) simp_all
    have fc: "frame s (snd ?call)"
      by (rule frame_trans [OF f2 frame_streamChatCall])
    show ?thesis
    proof (cases ?call)
      case (Pair c s3)
      then have f3: "frame s s3" using fc by simp
      show ?thesis
      proof (cases c)
        case (Done response)
        show ?thesis
        proof (cases "vr_valid (validateContent D (extractCode D response (fixEngine F)) (fixEngine F))")
          case True
          with \<open>attempts < maxAttempts F\<close> Pair Done f3 show ?thesis
            by (subst autoFixLoop.simps) (simp add: Let_def andThen_simps)
        next
          case False
          have "frame s3 (snd (autoFixLoop D F sp aid (extractCode D response (fixEngine F))
                  (or_else (vr_error (validateContent D (extractCode D response (fixEngine F))
                     (fixEngine F))) ''Unknown error'') (attempts + 1) s3))"
            using "1.IH" [OF True refl refl refl refl refl refl False]
            by simp
          then have "frame s (snd (autoFixLoop D F sp aid (extractCode D response (fixEngine F))
                  (or_else (vr_error (validateContent D (extractCode D response (fixEngine F))
                     (fixEngine F))) ''Unknown error'') (attempts + 1) s3))"
            by (rule frame_trans [OF f3])
          with \<open>attempts < maxAttempts F\<close> Pair Done False show ?thesis
            by (subst autoFixLoop.simps) (simp add: Let_def andThen_simps)
        qed
      next
        case (Throws e)
        with \<open>attempts < maxAttempts F\<close> Pair f3 show ?thesis
          by (subst autoFixLoop.simps) (simp add: Let_def andThen_simps)
      next
        case (Pending k)
        with \<open>attempts < maxAttempts F\<close> Pair f3 show ?thesis
          by (subst autoFixLoop.simps) (simp add: Let_def andThen_simps)
      qed
    qed
  qed
qed

lemma frame_repairStage: "frame s (snd (repairStage D F e sp aid cv s))"
proof (cases cv)
  case (Pair code v)
  show ?thesis
    unfolding repairStage_def Pair
    by (auto intro!: frame_andThen frame_autoFixLoop)
qed

lemma frame_persistResult: "frame s (persistResult D project isInitial aid code s)"
  by (auto simp: frame_def persistResult_def Let_def updateMessage_def comp_def split: sum.splits)

lemma frame_singlePhaseInitial:
  "frame s (snd (singlePhaseInitialGeneration D u e sp aid atts s))"
  unfolding singlePhaseInitialGeneration_def Let_def
  by (rule frame_andThen) (simp_all add: frame_steps)

lemma frame_singlePhase:
  "frame s (snd (singlePhaseGeneration D u code e sp aid atts th s))"
  unfolding singlePhaseGeneration_def Let_def
  by (rule frame_andThen) (simp_all add: frame_steps)

lemma frame_twoPhase:
  "frame s (snd (twoPhaseGeneration D u e sp aid atts s))"
  unfolding twoPhaseGeneration_def Let_def
proof (rule frame_andThen, goal_cases)
  case 1
  show ?case by (simp add: frame_steps)
next
  case (2 x s1)
  show ?case by (rule frame_andThen) (simp_all add: frame_steps)
qed

lemma frame_generateTry:
  "frame s (snd (generateTry D u isInitial atts project code aid s))"
  unfolding generateTry_def Let_def
  apply (rule frame_andThen)
   apply (simp add: frame_singlePhaseInitial frame_singlePhase frame_twoPhase)
  apply (rule frame_andThen)
   apply (rule frame_repairStage)
  apply (rule frame_andThen)
   apply (rule frame_repairStage)
  apply (auto simp: frame_persistResult split: prod.splits)
  done

subsection \<open>\<^verbatim>\<open>generate\<close>\<close>

lemma generateEnter_fields:
  assumes "generateEnter u atts s = (aid, s4)"
  shows "isGeneratingRef s4" and "errorToasts s4 = errorToasts s" and "sent s4 = sent s"
    and "network s4 = network s" and "currentProject s4 = currentProject s"
    and "aid \<in> cm_id ` set (chatMessages s4)"
  using assms
  by (auto simp: generateEnter_def addMessage_def setLoading_def setStreaming_def Let_def)

lemma generateFinally_fields [simp]:
  "\<not> isGeneratingRef (generateFinally s)" "\<not> isStreaming (generateFinally s)"
  "\<not> isLoading (generateFinally s)" "errorToasts (generateFinally s) = errorToasts s"
  "chatMessages (generateFinally s) = chatMessages s" "sent (generateFinally s) = sent s"
  "network (generateFinally s) = network s"
  by (simp_all add: generateFinally_def setLoading_def setStreaming_def)

lemma generateCatch_fields [simp]:
  "sent (generateCatch aid e s) = sent s" "network (generateCatch aid e s) = network s"
  by (simp_all add: generateCatch_def Let_def)

lemma updateMessage_ids [simp]:
  "map cm_id (chatMessages (updateMessage i d s)) = map cm_id (chatMessages s)"
  by (simp add: updateMessage_def comp_def)

lemma updateMessage_patched:
  assumes "msg \<in> set (chatMessages (updateMessage i \<lparr>patch_content = Some c, patch_status = Some st\<rparr> s))"
    and "cm_id msg = i"
  shows "cm_status msg = st \<and> cm_content msg = c"
proof -
  let ?d = "\<lparr>patch_content = Some c, patch_status = Some st\<rparr>"
  from assms(1) obtain x where x: "x \<in> set (chatMessages s)"
    and m: "msg = (if cm_id x = i then applyPatch ?d x else x)"
    unfolding updateMessage_def by auto
  show ?thesis
  proof (cases "cm_id x = i")
    case True
    with m show ?thesis by (simp add: applyPatch_def)
  next
    case False
    with m assms(2) show ?thesis by simp
  qed
qed




subsection \<open>The choice of the strategy\<close>

lemma andThen_pure_snd: "snd (andThen m (\<lambda>x s. (Done (g x), s))) = snd m"
  by (cases m; cases "fst m") (auto simp: andThen_simps)

lemma sent_andThen:
  assumes "sent (snd m) = a @ b" and "\<And>x s1. frame s1 (snd (f x s1))"
  shows "\<exists>more. sent (snd (andThen m f)) = a @ b @ more"
proof (cases m)
  case (Pair c s1)
  show ?thesis
  proof (cases c)
    case (Done x)
    from assms(2) [of s1 x] obtain more where "sent (snd (f x s1)) = sent s1 @ more"
      unfolding frame_def by blast
    then show ?thesis using Pair Done assms(1) by (simp add: andThen_simps)
  qed (use Pair assms(1) in \<open>simp_all add: andThen_simps\<close>)
qed

lemma singlePhaseInitial_sent:
  "sent (snd (singlePhaseInitialGeneration D u e sp aid atts s)) =
     sent s @ [[systemMessage sp,
                \<lparr>msg_role = RoleUser,
                 msg_content = buildMultimodalContent (buildInitialPrompt u False None None)
                                 atts None\<rparr>]]"
  unfolding singlePhaseInitialGeneration_def Let_def
  by (simp only: andThen_pure_snd streamChatCall_sent setMessages_fields updateMessage_fields)

lemma singlePhase_sent:
  "sent (snd (singlePhaseGeneration D u code e sp aid atts th s)) =
     sent s @ [[systemMessage sp,
                \<lparr>msg_role = RoleUser,
                 msg_content = buildMultimodalContent (buildEditPrompt code u) atts th\<rparr>]]"
  unfolding singlePhaseGeneration_def Let_def
  by (simp only: andThen_pure_snd streamChatCall_sent setMessages_fields)

lemma frame_afterStrategy:
  "frame s1 (snd (andThen (repairStage D mermaidFix e sp aid (code, validateContent D code e) s1)
       (\<lambda>cv s2. andThen (repairStage D excalidrawFix e sp aid cv s2)
          (\<lambda>cv' s3. case cv' of
               (validatedCode, validation) \<Rightarrow>
                 if \<not> vr_valid validation
                 then (Throws (Error (''Invalid '' @ engine_name e @ '' output: ''
                          @ (case vr_error validation of None \<Rightarrow> ''undefined'' | Some x \<Rightarrow> x))), s3)
                 else (Done (), persistResult D project isInitial aid validatedCode s3)))))"
  apply (rule frame_andThen)
   apply (rule frame_repairStage)
  apply (rule frame_andThen)
   apply (rule frame_repairStage)
  apply (auto simp: frame_persistResult split: prod.splits)
  done

lemma generateTry_first:
  "\<exists>more. sent (snd (generateTry D u isInitial atts project code aid s)) =
     sent s @ [[systemMessage (getSystemPrompt D (proj_engineType project)),
                \<lparr>msg_role = RoleUser,
                 msg_content =
                   (if isInitial
                    then buildMultimodalContent (buildInitialPrompt u False None None) atts None
                    else buildMultimodalContent (buildEditPrompt code u) atts
                           (proj_thumbnail project))\<rparr>]] @ more"
proof (cases isInitial)
  case True
  show ?thesis
    unfolding generateTry_def Let_def useTwoPhase_def
    using True
    apply (simp only: if_True if_False)
    apply (rule sent_andThen)
     apply (rule singlePhaseInitial_sent)
    apply (rule frame_afterStrategy)
    done
next
  case False
  show ?thesis
    unfolding generateTry_def Let_def
    using False
    apply (simp only: if_True if_False)
    apply (rule sent_andThen)
     apply (rule singlePhase_sent)
    apply (rule frame_afterStrategy)
    done
qed

lemma generate_sent:
  assumes "currentProject s = Some project" and "\<not> isGeneratingRef s"
    and "generateEnter u atts s = (aid, s4)"
  shows "sent (snd (generate D u isInitial atts s))
           = sent (snd (generateTry D u isInitial atts project (currentContent s) aid s4))"
proof -
  obtain c s5 where t: "generateTry D u isInitial atts project (currentContent s) aid s4 = (c, s5)"
    by (cases "generateTry D u isInitial atts project (currentContent s) aid s4")
  show ?thesis using assms t by (cases c) (simp_all add: generate_def tryCatchFinally_simps)
qed

lemma twoPhase_settled:
  assumes net: "network s = o1 # o2 # later" and e1: "ending o1 = Inr r1" and e2: "ending o2 = Inr r2"
  shows "fst (twoPhaseGeneration D u e sp aid atts s) = Done (extractCode D r2 e)
     \<and> sent (snd (twoPhaseGeneration D u e sp aid atts s)) =
         sent s @
         [[systemMessage sp,
           \<lparr>msg_role = RoleUser,
            msg_content = buildMultimodalContent (buildInitialPrompt u True (Some Elements) None)
                            atts None\<rparr>],
          [systemMessage sp,
           \<lparr>msg_role = RoleUser,
            msg_content = buildMultimodalContent (buildInitialPrompt u True (Some Elements) None)
                            atts None\<rparr>,
           \<lparr>msg_role = RoleAssistant, msg_content = Text (extractCode D r1 e)\<rparr>,
           \<lparr>msg_role = RoleUser,
            msg_content = buildMultimodalContent
                            (buildInitialPrompt u True (Some Links) (Some (extractCode D r1 e)))
                            atts
                            (case generateThumbnail D (extractCode D r1 e) e of
                               Inl err \<Rightarrow> None | Inr t \<Rightarrow> Some t)\<rparr>]]"
proof -
  let ?p1 = "\<lparr>msg_role = RoleUser,
            msg_content = buildMultimodalContent (buildInitialPrompt u True (Some Elements) None)
                            atts None\<rparr>"
  let ?m1 = "[systemMessage sp, ?p1]"
  let ?s2 = "setMessages ?m1 (updateMessage aid
                 \<lparr>patch_content = Some ''Phase 1/2: Generating elements...'',
                  patch_status = Some StatusStreaming\<rparr> s)"
  have n2: "network ?s2 = o1 # o2 # later" using net by simp
  obtain s3 where c1: "streamChatCall ?m1
        (progressCallback aid ''Phase 1/2: Generating elements...'') ?s2 = (Done r1, s3)"
    and n3: "network s3 = o2 # later" and t3: "sent s3 = sent ?s2 @ [?m1]"
    using streamChatCall_settled [OF n2 e1] by blast
  let ?el = "extractCode D r1 e"
  let ?m2 = "[systemMessage sp, ?p1, \<lparr>msg_role = RoleAssistant, msg_content = Text ?el\<rparr>,
           \<lparr>msg_role = RoleUser,
            msg_content = buildMultimodalContent
                            (buildInitialPrompt u True (Some Links) (Some ?el)) atts
                            (case generateThumbnail D ?el e of
                               Inl err \<Rightarrow> None | Inr t \<Rightarrow> Some t)\<rparr>]"
  let ?s5 = "setMessages ?m2 (updateMessage aid
                         \<lparr>patch_content = Some ''Phase 2/2: Generating connections...'',
                          patch_status = Some StatusStreaming\<rparr> s3)"
  have n5: "network ?s5 = o2 # later" using n3 by simp
  obtain s6 where c2: "streamChatCall ?m2
        (progressCallback aid ''Phase 2/2: Generating connections...'') ?s5 = (Done r2, s6)"
    and t6: "sent s6 = sent ?s5 @ [?m2]"
    using streamChatCall_settled [OF n5 e2] by blast
  have "twoPhaseGeneration D u e sp aid atts s = (Done (extractCode D r2 e), s6)"
    unfolding twoPhaseGeneration_def Let_def
    by (simp add: c1 c2 andThen_simps)
  then show ?thesis using t6 t3 by simp
qed

lemma preview_first:
  assumes "js_trim t \<noteq> []"
  shows "\<exists>parts. buildMultimodalContent p atts (Some t) = Parts (ImageUrlPart t # parts)"
proof -
  have "t \<noteq> []" using assms by (auto simp: js_trim_Nil)
  then show ?thesis using assms
    by (simp add: buildMultimodalContent_def Let_def truthy_def)
qed




subsection \<open>One generation at a time\<close>

lemma frame_settle: "frame s (snd (settle (progressCallback i l) out s))"
  using frame_callbacks [of s i l "increments out"]
  by (simp add: settle_def Let_def split: sum.splits)

lemma framed_settle: "framed (fst (settle cb out s))"
  by (simp add: settle_def Let_def framed.intros split: sum.splits)

lemma framed_streamChatCall: "framed (fst (streamChatCall ms (progressCallback i l) s))"
proof (cases "network s")
  case Nil
  have "framed (Pending (settle (progressCallback i l)))"
    by (rule framed.intros) (simp add: frame_settle framed_settle)
  then show ?thesis using Nil by (simp add: streamChatCall_def Let_def)
next
  case (Cons out later)
  then show ?thesis by (simp add: streamChatCall_def Let_def framed_settle)
qed

lemma framed_resume:
  assumes "framed c" and "\<And>x s. frame s (snd (f x s)) \<and> framed (fst (f x s))"
  shows "framed (fst (andThen (c, s) f))"
  using assms(1)
proof (induction arbitrary: s rule: framed.induct)
  case (1 x)
  then show ?case by (simp add: andThen_simps assms(2))
next
  case (2 e)
  then show ?case by (simp add: andThen_simps framed.intros)
next
  case (3 k)
  have "framed (Pending (\<lambda>outcome s'. andThen (k outcome s') f))"
  proof (rule framed.intros, intro conjI)
    fix outcome s'
    have "frame s' (snd (k outcome s'))" using 3 by simp
    then show "frame s' (snd (andThen (k outcome s') f))"
      by (rule frame_andThen) (simp add: assms(2))
    have "\<forall>x. framed (fst (andThen (fst (k outcome s'), x) f))"
      using 3 by blast
    then have "framed (fst (andThen (fst (k outcome s'), snd (k outcome s')) f))"
      by blast
    then show "framed (fst (andThen (k outcome s') f))" by simp
  qed
  then show ?case by (simp add: andThen_simps)
qed

lemma framed_andThen:
  assumes "framed (fst m)" and "\<And>x s. frame s (snd (f x s))" and "\<And>x s. framed (fst (f x s))"
  shows "framed (fst (andThen m f))"
  using framed_resume [of "fst m" f "snd m"] assms by simp

lemma framed_autoFixLoop: "framed (fst (autoFixLoop D F sp aid code err attempts s))"
proof (induction D F sp aid code err attempts s rule: autoFixLoop.induct)
  case (1 D F sp aid code err attempts s)
  show ?case
  proof (cases "attempts < maxAttempts F")
    case False
    then show ?thesis by (subst autoFixLoop.simps) (simp add: framed.intros)
  next
    case True
    have ih: "framed (fst (autoFixLoop D F sp aid (extractCode D x (fixEngine F))
                  (or_else (vr_error (validateContent D (extractCode D x (fixEngine F))
                     (fixEngine F))) ''Unknown error'') (Suc attempts) s3))"
      if "\<not> vr_valid (validateContent D (extractCode D x (fixEngine F)) (fixEngine F))"
      for x s3
      using "1.IH" [OF True refl refl refl refl refl refl that] by simp
    show ?thesis
      apply (subst autoFixLoop.simps)
      apply (simp only: True if_True Let_def)
      apply (rule framed_andThen)
        apply (rule framed_streamChatCall)
       apply (simp add: frame_autoFixLoop)
      apply (simp add: framed.intros ih)
      done
  qed
qed

lemma framed_repairStage: "framed (fst (repairStage D F e sp aid cv s))"
proof (cases cv)
  case (Pair code v)
  show ?thesis
    unfolding repairStage_def Pair
    by (auto intro!: framed_andThen framed_autoFixLoop framed.intros)
qed

lemma framed_singlePhaseInitial:
  "framed (fst (singlePhaseInitialGeneration D u e sp aid atts s))"
  unfolding singlePhaseInitialGeneration_def Let_def
  by (rule framed_andThen) (simp_all add: framed_streamChatCall framed.intros)

lemma framed_singlePhase:
  "framed (fst (singlePhaseGeneration D u code e sp aid atts th s))"
  unfolding singlePhaseGeneration_def Let_def
  by (rule framed_andThen) (simp_all add: framed_streamChatCall framed.intros)

lemma framed_twoPhase:
  "framed (fst (twoPhaseGeneration D u e sp aid atts s))"
  unfolding twoPhaseGeneration_def Let_def
proof (rule framed_andThen, goal_cases)
  case 1
  show ?case by (rule framed_streamChatCall)
next
  case (2 x s1)
  show ?case by (rule frame_andThen) (simp_all add: frame_steps)
next
  case (3 x s1)
  show ?case by (rule framed_andThen) (simp_all add: framed_streamChatCall framed.intros)
qed

lemma framed_afterStrategy:
  "framed (fst (andThen (repairStage D mermaidFix e sp aid (code, validateContent D code e) s1)
       (\<lambda>cv s2. andThen (repairStage D excalidrawFix e sp aid cv s2)
          (\<lambda>cv' s3. case cv' of
               (validatedCode, validation) \<Rightarrow>
                 if \<not> vr_valid validation
                 then (Throws (Error (''Invalid '' @ engine_name e @ '' output: ''
                          @ (case vr_error validation of None \<Rightarrow> ''undefined'' | Some x \<Rightarrow> x))), s3)
                 else (Done (), persistResult D project isInitial aid validatedCode s3)))))"
  apply (rule framed_andThen)
    apply (rule framed_repairStage)
   apply (rule frame_andThen)
    apply (rule frame_repairStage)
   apply (auto simp: frame_persistResult split: prod.splits)[1]
  apply (rule framed_andThen)
    apply (rule framed_repairStage)
   apply (auto simp: frame_persistResult split: prod.splits)[1]
  apply (auto simp: framed.intros split: prod.splits)
  done

lemma framed_generateTry:
  "framed (fst (generateTry D u isInitial atts project code aid s))"
  unfolding generateTry_def Let_def
  apply (rule framed_andThen)
    apply (simp add: framed_singlePhaseInitial framed_singlePhase framed_twoPhase)
   apply (rule frame_afterStrategy)
  apply (rule framed_afterStrategy)
  done

lemma orderly_unwind:
  assumes "framed c" and "isGeneratingRef s"
  shows "orderly (tryCatchFinally aid (c, s))"
  using assms
proof (induction arbitrary: s rule: framed.induct)
  case (1 x)
  then show ?case by (simp add: tryCatchFinally_simps orderly.intros)
next
  case (2 e)
  then show ?case by (simp add: tryCatchFinally_simps orderly.intros)
next
  case (3 k)
  have "orderly (Pending (\<lambda>outcome s'. tryCatchFinally aid (k outcome s')), s)"
  proof (rule orderly.intros)
    show "isGeneratingRef s" by (rule "3.prems")
  next
    fix outcome and s' :: OrchState
    assume g: "isGeneratingRef s'"
    have "frame s' (snd (k outcome s'))" using "3.IH" by blast
    then have g': "isGeneratingRef (snd (k outcome s'))" using g by (simp add: frame_def)
    have "\<forall>x. isGeneratingRef x \<longrightarrow> orderly (tryCatchFinally aid (fst (k outcome s'), x))"
      using "3.IH" by blast
    then have "orderly (tryCatchFinally aid (fst (k outcome s'), snd (k outcome s')))"
      using g' by blast
    then show "orderly (tryCatchFinally aid (k outcome s'))" by simp
  qed
  then show ?case by (simp add: tryCatchFinally_simps)
qed

lemma orderly_generate:
  assumes "currentProject s = Some project" and "\<not> isGeneratingRef s"
  shows "orderly (generate D u i a s)"
proof -
  obtain aid s4 where e: "generateEnter u a s = (aid, s4)"
    by (cases "generateEnter u a s")
  have "isGeneratingRef s4" by (rule generateEnter_fields(1) [OF e])
  then have "orderly (tryCatchFinally aid
      (fst (generateTry D u i a project (currentContent s) aid s4),
       snd (generateTry D u i a project (currentContent s) aid s4)))"
    using framed_generateTry frame_generateTry [of s4 D u i a project "currentContent s" aid]
    by (intro orderly_unwind) (simp_all add: frame_def)
  then show ?thesis using assms e by (simp add: generate_def)
qed

lemma invoke_rejected:
  "isGeneratingRef s \<Longrightarrow> invoke D fault u i a s = (Done (), s)"
  by (simp add: invoke_def generate_def split: option.splits)

lemma orderly_after:
  assumes "orderly m"
  shows "inOrder (hookAfter m [] [])"
    and "isGeneratingRef (fst (hookAfter m [] [])) \<longrightarrow> snd (hookAfter m [] []) \<noteq> []"
  using assms by (auto elim!: orderly.cases simp: hookAfter_def inOrder_def)

lemma orderly_invoke:
  assumes "\<not> isGeneratingRef s"
  shows "inOrder (hookAfter (invoke D fault u i a s) [] [])"
    and "fault = None \<Longrightarrow> isGeneratingRef (fst (hookAfter (invoke D fault u i a s) [] []))
           \<longrightarrow> snd (hookAfter (invoke D fault u i a s) [] []) \<noteq> []"
proof -
  show "inOrder (hookAfter (invoke D fault u i a s) [] [])"
  proof (cases "currentProject s")
    case None
    then show ?thesis
      by (simp add: invoke_def generate_def hookAfter_def inOrder_def split: option.splits)
  next
    case (Some project)
    show ?thesis
    proof (cases fault)
      case None
      then show ?thesis
        using orderly_after(1) [OF orderly_generate [OF Some assms]] by (simp add: invoke_def)
    next
      case (Some err)
      then show ?thesis using \<open>currentProject s = Some project\<close> assms
        by (simp add: invoke_def hookAfter_def inOrder_def)
    qed
  qed
  show "isGeneratingRef (fst (hookAfter (invoke D fault u i a s) [] []))
           \<longrightarrow> snd (hookAfter (invoke D fault u i a s) [] []) \<noteq> []" if "fault = None"
  proof (cases "currentProject s")
    case None
    then show ?thesis using assms that
      by (simp add: invoke_def generate_def hookAfter_def)
  next
    case (Some project)
    then show ?thesis
      using orderly_after(2) [OF orderly_generate [OF Some assms]] that by (simp add: invoke_def)
  qed
qed

lemma hookStep_inOrder:
  assumes "inOrder sys" and "ev \<noteq> Stop"
  shows "inOrder (hookStep D sys ev)"
proof (cases sys)
  case (Pair s flights)
  show ?thesis
  proof (cases ev)
    case (Invoke fault u i a)
    show ?thesis
    proof (cases "isGeneratingRef s")
      case True
      then show ?thesis using assms(1) Pair Invoke
        by (simp add: hookStep_def invoke_rejected hookAfter_def)
    next
      case False
      then have "flights = []" using assms(1) Pair by (auto simp: inOrder_def)
      then show ?thesis using Pair Invoke orderly_invoke(1) [OF False]
        by (simp add: hookStep_def)
    qed
  next
    case (Settle n outcome)
    show ?thesis
    proof (cases "n < length flights")
      case False
      then show ?thesis using assms(1) Pair Settle by (simp add: hookStep_def)
    next
      case True
      then obtain k where k: "flights = [k]" and g: "isGeneratingRef s"
        and o: "\<forall>outcome s'. isGeneratingRef s' \<longrightarrow> orderly (k outcome s')"
        using assms(1) Pair by (auto simp: inOrder_def)
      then have "n = 0" using True by simp
      moreover have "orderly (k outcome s)" using o g by blast
      ultimately show ?thesis using Pair Settle k orderly_after(1)
        by (simp add: hookStep_def)
    qed
  next
    case Stop
    then show ?thesis using assms(2) by simp
  qed
qed

lemma hookStep_tight:
  assumes "inOrder sys" and "isGeneratingRef (fst sys) \<longrightarrow> snd sys \<noteq> []"
    and "ev \<noteq> Stop" and "\<not> faulty ev"
  shows "isGeneratingRef (fst (hookStep D sys ev)) \<longrightarrow> snd (hookStep D sys ev) \<noteq> []"
proof (cases sys)
  case (Pair s flights)
  show ?thesis
  proof (cases ev)
    case (Invoke fault u i a)
    then have none: "fault = None" using assms(4) by (cases fault) (simp_all add: faulty_def)
    show ?thesis
    proof (cases "isGeneratingRef s")
      case True
      then show ?thesis using assms(2) Pair Invoke
        by (simp add: hookStep_def invoke_rejected hookAfter_def)
    next
      case False
      then have "flights = []" using assms(1) Pair by (auto simp: inOrder_def)
      then show ?thesis using Pair Invoke orderly_invoke(2) [OF False none]
        by (simp add: hookStep_def)
    qed
  next
    case (Settle n outcome)
    show ?thesis
    proof (cases "n < length flights")
      case False
      then show ?thesis using assms(2) Pair Settle by (simp add: hookStep_def)
    next
      case True
      then obtain k where k: "flights = [k]" and g: "isGeneratingRef s"
        and o: "\<forall>outcome s'. isGeneratingRef s' \<longrightarrow> orderly (k outcome s')"
        using assms(1) Pair by (auto simp: inOrder_def)
      then have "n = 0" using True by simp
      moreover have "orderly (k outcome s)" using o g by blast
      ultimately show ?thesis using Pair Settle k orderly_after(2)
        by (simp add: hookStep_def)
    qed
  next
    case Stop
    then show ?thesis using assms(3) by simp
  qed
qed

lemma hookRun_inOrder:
  assumes "inOrder sys" and "Stop \<notin> set events"
  shows "inOrder (hookRun D events sys)"
  using assms
proof (induction events arbitrary: sys)
  case Nil
  then show ?case by (simp add: hookRun_def)
next
  case (Cons ev events)
  have "inOrder (hookStep D sys ev)" using Cons.prems by (intro hookStep_inOrder) auto
  then have "inOrder (hookRun D events (hookStep D sys ev))" using Cons.prems
    by (intro Cons.IH) auto
  then show ?case by (simp add: hookRun_def)
qed

lemma hookRun_tight:
  assumes "inOrder sys" and "isGeneratingRef (fst sys) \<longrightarrow> snd sys \<noteq> []"
    and "Stop \<notin> set events" and "\<forall>ev \<in> set events. \<not> faulty ev"
  shows "isGeneratingRef (fst (hookRun D events sys)) \<longrightarrow> snd (hookRun D events sys) \<noteq> []"
  using assms
proof (induction events arbitrary: sys)
  case Nil
  then show ?case by (simp add: hookRun_def)
next
  case (Cons ev events)
  have a: "inOrder (hookStep D sys ev)" using Cons.prems by (intro hookStep_inOrder) auto
  have b: "isGeneratingRef (fst (hookStep D sys ev)) \<longrightarrow> snd (hookStep D sys ev) \<noteq> []"
    using Cons.prems by (intro hookStep_tight) auto
  have "isGeneratingRef (fst (hookRun D events (hookStep D sys ev)))
        \<longrightarrow> snd (hookRun D events (hookStep D sys ev)) \<noteq> []"
    using Cons.prems by (intro Cons.IH [OF a b]) auto
  then show ?case by (simp add: hookRun_def)
qed




end
